theory Spec2Isabelle
  imports Main "HOL-Library.Word"
begin

section \<open>Values of the image library\<close>

text \<open>
  The class \<^verbatim>\<open>Extractor\<close> of \<^verbatim>\<open>extractor.cpp\<close> works on OpenCV values. A matrix is
  its header (\<open>rows\<close>, \<open>cols\<close>) and its pixels, read as \<open>at m i j\<close> (row \<open>i\<close>, column
  \<open>j\<close>). A colour pixel has three 8-bit channels, a grey pixel one. A C++ \<^verbatim>\<open>int\<close> is
  an integer of 32 bits: the fields hold values of that range, and every sum and product
  the class computes is cut to it (\<open>int32\<close> below).
\<close>

type_synonym uchar = "8 word"
type_synonym Vec3b = "uchar \<times> uchar \<times> uchar"
type_synonym Scalar = "int \<times> int \<times> int \<times> int"
type_synonym RNG = "64 word"

datatype Point = Point (pt_x: int) (pt_y: int)

record Rect =
  rect_x :: int
  rect_y :: int
  rect_width :: int
  rect_height :: int

record 'p Mat =
  rows :: int
  cols :: int
  at :: "int \<Rightarrow> int \<Rightarrow> 'p"

text \<open>What can stop a call: the division \<^verbatim>\<open>height / width\<close> by zero, and a failed
  \<^verbatim>\<open>CV_Assert\<close> of the library (a region of interest outside its matrix).\<close>

datatype exn = DivideByZero | AssertionFailed

text \<open>The value of a sum or product of \<^verbatim>\<open>int\<close>s. Where the exact result leaves the range
  of 32 bits the compiled code keeps its low 32 bits, read as two's complement (the
  language leaves such an overflow undefined): \<^verbatim>\<open>46341 * 46341\<close> is \<open>-2147479015\<close>.\<close>

definition int32 :: "int \<Rightarrow> int" where
  "int32 k = (k + 2147483648) mod 4294967296 - 2147483648"

text \<open>\<^verbatim>\<open>Rect::tl()\<close> and \<^verbatim>\<open>Rect::br()\<close>.\<close>

definition Rect_tl :: "Rect \<Rightarrow> Point" where
  "Rect_tl r = Point (rect_x r) (rect_y r)"

definition Rect_br :: "Rect \<Rightarrow> Point" where
  "Rect_br r = Point (int32 (rect_x r + rect_width r)) (int32 (rect_y r + rect_height r))"

text \<open>The operator \<^verbatim>\<open>/\<close> on C++ \<^verbatim>\<open>int\<close>s rounds towards zero (the divisor is
  checked before each use below).\<close>

definition cdiv :: "int \<Rightarrow> int \<Rightarrow> int" where
  "cdiv a b = sgn a * sgn b * (\<bar>a\<bar> div \<bar>b\<bar>)"

text \<open>\<^verbatim>\<open>Mat()\<close>, \<^verbatim>\<open>Mat::empty()\<close>, \<^verbatim>\<open>Mat::zeros(size, CV_8UC3)\<close> and
  \<^verbatim>\<open>Mat::clone()\<close>.\<close>

definition Mat_default :: "Vec3b Mat" where
  "Mat_default = \<lparr>rows = 0, cols = 0, at = (\<lambda>i j. (0, 0, 0))\<rparr>"

definition Mat_empty :: "'p Mat \<Rightarrow> bool" where
  "Mat_empty m \<longleftrightarrow> rows m * cols m = 0"

definition Mat_zeros :: "int \<Rightarrow> int \<Rightarrow> Vec3b Mat" where
  "Mat_zeros r c = \<lparr>rows = r, cols = c, at = (\<lambda>i j. (0, 0, 0))\<rparr>"

definition Mat_clone :: "'p Mat \<Rightarrow> 'p Mat" where
  "Mat_clone m = m"

text \<open>\<^verbatim>\<open>Mat(m, roi)\<close> and \<^verbatim>\<open>m(roi)\<close>: the library asserts that the rectangle lies in
  the matrix; a rectangle with no row or no column gives the matrix of size 0 x 0.\<close>

definition Mat_roi :: "'p Mat \<Rightarrow> Rect \<Rightarrow> exn + 'p Mat" where
  "Mat_roi m roi =
     (if 0 \<le> rect_x roi \<and> 0 \<le> rect_width roi \<and> rect_x roi + rect_width roi \<le> cols m \<and>
         0 \<le> rect_y roi \<and> 0 \<le> rect_height roi \<and> rect_y roi + rect_height roi \<le> rows m
      then Inr (if rect_height roi \<le> 0 \<or> rect_width roi \<le> 0
                then \<lparr>rows = 0, cols = 0,
                      at = (\<lambda>i j. at m (i + rect_y roi) (j + rect_x roi))\<rparr>
                else \<lparr>rows = rect_height roi, cols = rect_width roi,
                      at = (\<lambda>i j. at m (i + rect_y roi) (j + rect_x roi))\<rparr>)
      else Inl AssertionFailed)"

text \<open>\<^verbatim>\<open>m.copyTo(dst, mask)\<close> with a mask of three channels: a channel of \<open>m\<close> is
  copied where the same channel of the mask is not zero, and the channel of \<open>dst\<close> stays
  as it was elsewhere. A \<open>dst\<close> of another size is allocated anew, filled with zeros.\<close>

fun masked :: "Vec3b \<Rightarrow> Vec3b \<Rightarrow> Vec3b \<Rightarrow> Vec3b" where
  "masked (m0, m1, m2) (s0, s1, s2) (d0, d1, d2) =
     (if m0 \<noteq> 0 then s0 else d0, if m1 \<noteq> 0 then s1 else d1, if m2 \<noteq> 0 then s2 else d2)"

definition Mat_copyTo :: "Vec3b Mat \<Rightarrow> Vec3b Mat \<Rightarrow> Vec3b Mat \<Rightarrow> Vec3b Mat" where
  "Mat_copyTo m dst msk =
     (let d = (if rows dst = rows m \<and> cols dst = cols m then dst
               else Mat_zeros (rows m) (cols m))
      in \<lparr>rows = rows m, cols = cols m,
          at = (\<lambda>i j. masked (at msk i j) (at m i j) (at d i j))\<rparr>)"

text \<open>The other library functions the class calls are parameters of the model: their
  code is not part of the repository. \<open>drawContours\<close> and \<open>rectangle\<close> return the image
  they drew on; \<open>uniform\<close> returns the number drawn and the generator's next state.\<close>

record OpenCV =
  cvtColor :: "Vec3b Mat \<Rightarrow> uchar Mat"
  blur :: "uchar Mat \<Rightarrow> int \<times> int \<Rightarrow> uchar Mat"
  Canny :: "uchar Mat \<Rightarrow> int \<Rightarrow> int \<Rightarrow> uchar Mat"
  findContours :: "uchar Mat \<Rightarrow> Point list list"
  approxPolyDP :: "Point list \<Rightarrow> int \<Rightarrow> bool \<Rightarrow> Point list"
  boundingRect :: "Point list \<Rightarrow> Rect"
  drawContours :: "Vec3b Mat \<Rightarrow> Point list list \<Rightarrow> nat \<Rightarrow> Scalar \<Rightarrow> int \<Rightarrow> Vec3b Mat"
  rectangle :: "Vec3b Mat \<Rightarrow> Point \<Rightarrow> Point \<Rightarrow> Scalar \<Rightarrow> int \<Rightarrow> Vec3b Mat"
  uniform :: "RNG \<Rightarrow> int \<Rightarrow> int \<Rightarrow> int \<times> RNG"

text \<open>\<^verbatim>\<open>THRESH_OTSU\<close> is an enumerator of the library's \<^verbatim>\<open>ThresholdTypes\<close>: a flag
  for \<^verbatim>\<open>cv::threshold\<close>, with the value 8.\<close>

definition THRESH_OTSU :: int where
  "THRESH_OTSU = 8"

section \<open>The class Extractor\<close>

text \<open>The fields of the object. The header \<^verbatim>\<open>extractor.h\<close> that declares them is not
  among the sources; the fields are the ones \<^verbatim>\<open>extractor.cpp\<close> reads and writes.\<close>

record Extractor =
  enableShowResult :: bool
  rng :: RNG
  src :: "Vec3b Mat"
  src_gray :: "uchar Mat"
  drawing :: "Vec3b Mat"
  rank :: "Vec3b Mat"
  suit :: "Vec3b Mat"
  rankBrYPosition :: int
  rankBrXPosition :: int
  error :: int

text \<open>The constructor stores the flag; its \<^verbatim>\<open>RNG rng(12345)\<close> is a local variable that
  shadows the field and is dropped. The initial values of \<open>rankBrYPosition\<close>,
  \<open>rankBrXPosition\<close> and \<open>error\<close> (the header's member initialisers) and the state of
  the default-constructed generator are parameters; the matrices start empty.\<close>

definition new_Extractor :: "int \<Rightarrow> int \<Rightarrow> int \<Rightarrow> RNG \<Rightarrow> bool \<Rightarrow> Extractor" where
  "new_Extractor y0 x0 err g enable =
     \<lparr>enableShowResult = enable, rng = g, src = Mat_default,
      src_gray = \<lparr>rows = 0, cols = 0, at = (\<lambda>i j. 0)\<rparr>, drawing = Mat_default,
      rank = Mat_default, suit = Mat_default,
      rankBrYPosition = y0, rankBrXPosition = x0, error = err\<rparr>"

text \<open>\<^verbatim>\<open>showResult\<close> opens four windows and waits for a key; the object is not changed.\<close>

definition Extractor_showResult :: "Extractor \<Rightarrow> Extractor" where
  "Extractor_showResult s = s"

subsection \<open>The filters of findSubImages\<close>

text \<open>The condition of the \<^verbatim>\<open>if\<close> in the rank loop (lines 89 to 96): \<open>Inr True\<close> is
  \<^verbatim>\<open>continue\<close>. The operator \<^verbatim>\<open>||\<close> evaluates from the left and stops at the first
  true operand, so the division is reached only when the area test is false.\<close>

definition rankReject :: "int \<Rightarrow> Vec3b Mat \<Rightarrow> Rect \<Rightarrow> exn + bool" where
  "rankReject area src' r =
     (let height = int32 (- pt_y (Rect_tl r) + pt_y (Rect_br r));
          width = int32 (- pt_x (Rect_tl r) + pt_x (Rect_br r))
      in if int32 (height * width) < cdiv area 10 then Inr True
         else if width = 0 then Inl DivideByZero
         else Inr (cdiv height width > 4 \<or> cdiv height width < 1
                   \<or> pt_x (Rect_br r) > cdiv (int32 (3 * cols src')) 4
                   \<or> pt_y (Rect_br r) > cdiv (int32 (3 * rows src')) 4))"

text \<open>The condition of the \<^verbatim>\<open>if\<close> in the suit loop (lines 124 to 129).\<close>

definition suitReject :: "int \<Rightarrow> Extractor \<Rightarrow> Rect \<Rightarrow> exn + bool" where
  "suitReject area s r =
     (let height = int32 (- pt_y (Rect_tl r) + pt_y (Rect_br r));
          width = int32 (- pt_x (Rect_tl r) + pt_x (Rect_br r))
      in if int32 (height * width) < cdiv area 25 then Inr True
         else if width = 0 then Inl DivideByZero
         else Inr (cdiv height width > 4 \<or> cdiv height width < 1
                   \<or> pt_y (Rect_br r) \<le> int32 (rankBrYPosition s + error s)
                   \<or> pt_x (Rect_br r) \<ge> int32 (rankBrXPosition s + cdiv (cols (src s)) 6)))"

subsection \<open>The sub-image of a contour\<close>

text \<open>"create img from contour" (lines 104 to 108, and again 135 to 139): draw contour
  \<open>i\<close> on the mask with colour \<^verbatim>\<open>Scalar(255)\<close> and thickness 0, clone \<open>src\<close>, copy \<open>src\<close>
  onto the clone under the mask, cut the bounding box out. The result is the sub-image
  and the mask as drawn on.\<close>

definition createImg ::
  "OpenCV \<Rightarrow> Point list list \<Rightarrow> Rect list \<Rightarrow> nat \<Rightarrow> Vec3b Mat \<Rightarrow> Vec3b Mat
     \<Rightarrow> exn + (Vec3b Mat \<times> Vec3b Mat)" where
  "createImg cv contours_poly boundRect i src' extractMask =
     (let extractMask' = drawContours cv extractMask contours_poly i (255, 0, 0, 0) 0;
          imageROI = Mat_clone src';
          imageROI' = Mat_copyTo src' imageROI extractMask'
      in case Mat_roi imageROI' (boundRect ! i) of
           Inl e \<Rightarrow> Inl e
         | Inr sub \<Rightarrow> Inr (sub, extractMask'))"

text \<open>"draw contour for window" (lines 111 to 113, and again 142 to 144): three numbers
  from the generator make the colour; the contour and its box go onto \<open>drawing\<close>.\<close>

definition drawForWindow ::
  "OpenCV \<Rightarrow> Point list list \<Rightarrow> Rect list \<Rightarrow> nat \<Rightarrow> Extractor \<Rightarrow> Extractor" where
  "drawForWindow cv contours_poly boundRect i s =
     (let (c0, g0) = uniform cv (rng s) 0 256;
          (c1, g1) = uniform cv g0 0 256;
          (c2, g2) = uniform cv g1 0 256;
          color = (c0, c1, c2, 0);
          d1 = drawContours cv (drawing s) contours_poly i color 1;
          d2 = rectangle cv d1 (Rect_tl (boundRect ! i)) (Rect_br (boundRect ! i)) color 2
      in s\<lparr>rng := g2, drawing := d2\<rparr>)"

subsection \<open>The two loops\<close>

text \<open>The \<^verbatim>\<open>else\<close> branch of the rank loop (lines 100 to 114), which ends with
  \<^verbatim>\<open>break\<close>. The state of the loops is the object and the local \<open>extractMask\<close>.\<close>

definition rankFound ::
  "OpenCV \<Rightarrow> Point list list \<Rightarrow> Rect list \<Rightarrow> nat \<Rightarrow> Extractor \<times> Vec3b Mat
     \<Rightarrow> exn + (Extractor \<times> Vec3b Mat)" where
  "rankFound cv contours_poly boundRect i st =
     (let s1 = (fst st)\<lparr>rankBrYPosition := pt_y (Rect_br (boundRect ! i))\<rparr>;
          s2 = s1\<lparr>rankBrXPosition := pt_x (Rect_br (boundRect ! i))\<rparr>
      in case createImg cv contours_poly boundRect i (src s2) (snd st) of
           Inl e \<Rightarrow> Inl e
         | Inr (sub, extractMask') \<Rightarrow>
             Inr (drawForWindow cv contours_poly boundRect i (s2\<lparr>rank := sub\<rparr>), extractMask'))"

text \<open>The \<^verbatim>\<open>else\<close> branch of the suit loop (lines 134 to 145).\<close>

definition suitFound ::
  "OpenCV \<Rightarrow> Point list list \<Rightarrow> Rect list \<Rightarrow> nat \<Rightarrow> Extractor \<times> Vec3b Mat
     \<Rightarrow> exn + (Extractor \<times> Vec3b Mat)" where
  "suitFound cv contours_poly boundRect i st =
     (case createImg cv contours_poly boundRect i (src (fst st)) (snd st) of
        Inl e \<Rightarrow> Inl e
      | Inr (sub, extractMask') \<Rightarrow>
          Inr (drawForWindow cv contours_poly boundRect i ((fst st)\<lparr>suit := sub\<rparr>), extractMask'))"

text \<open>\<^verbatim>\<open>for (size_t i = 0; i < contours.size(); i++)\<close>, from index \<open>i\<close> on.\<close>

function rankLoop ::
  "OpenCV \<Rightarrow> Point list list \<Rightarrow> Rect list \<Rightarrow> int \<Rightarrow> nat \<Rightarrow> Extractor \<times> Vec3b Mat
     \<Rightarrow> exn + (Extractor \<times> Vec3b Mat)" where
  "rankLoop cv contours_poly boundRect area i st =
     (if i < length contours_poly then
        (case rankReject area (src (fst st)) (boundRect ! i) of
           Inl e \<Rightarrow> Inl e
         | Inr True \<Rightarrow> rankLoop cv contours_poly boundRect area (Suc i) st
         | Inr False \<Rightarrow> rankFound cv contours_poly boundRect i st)
      else Inr st)"
  by pat_completeness auto
termination
  by (relation "measure (\<lambda>(cv, contours_poly, boundRect, area, i, st). length contours_poly - i)")
    auto

function suitLoop ::
  "OpenCV \<Rightarrow> Point list list \<Rightarrow> Rect list \<Rightarrow> int \<Rightarrow> nat \<Rightarrow> Extractor \<times> Vec3b Mat
     \<Rightarrow> exn + (Extractor \<times> Vec3b Mat)" where
  "suitLoop cv contours_poly boundRect area i st =
     (if i < length contours_poly then
        (case suitReject area (fst st) (boundRect ! i) of
           Inl e \<Rightarrow> Inl e
         | Inr True \<Rightarrow> suitLoop cv contours_poly boundRect area (Suc i) st
         | Inr False \<Rightarrow> suitFound cv contours_poly boundRect i st)
      else Inr st)"
  by pat_completeness auto
termination
  by (relation "measure (\<lambda>(cv, contours_poly, boundRect, area, i, st). length contours_poly - i)")
    auto

text \<open>The equations of the two loops are unfolded by hand, one round at a time.\<close>

declare rankLoop.simps [simp del] suitLoop.simps [simp del]

subsection \<open>findSubImages and extract\<close>

text \<open>Line 65: the edge map.\<close>

definition canny_output :: "OpenCV \<Rightarrow> uchar Mat \<Rightarrow> uchar Mat" where
  "canny_output cv gray = Canny cv gray THRESH_OTSU THRESH_OTSU"

text \<open>Lines 67 to 78: the contours of the edge map, their polygons and bounding boxes.\<close>

definition contours_poly_of :: "OpenCV \<Rightarrow> uchar Mat \<Rightarrow> Point list list" where
  "contours_poly_of cv gray =
     map (\<lambda>c. approxPolyDP cv c 3 True) (findContours cv (canny_output cv gray))"

definition boundRect_of :: "OpenCV \<Rightarrow> uchar Mat \<Rightarrow> Rect list" where
  "boundRect_of cv gray = map (boundingRect cv) (contours_poly_of cv gray)"

text \<open>Lines 80 to 151; \<open>area\<close> is the \<^verbatim>\<open>int\<close> of line 83. The message written to \<^verbatim>\<open>cout\<close> before the early return is not
  part of the state.\<close>

definition Extractor_findSubImages :: "OpenCV \<Rightarrow> Extractor \<Rightarrow> exn + Extractor" where
  "Extractor_findSubImages cv s =
     (let contours_poly = contours_poly_of cv (src_gray s);
          boundRect = boundRect_of cv (src_gray s);
          s0 = s\<lparr>drawing := Mat_zeros (rows (canny_output cv (src_gray s)))
                                       (cols (canny_output cv (src_gray s)))\<rparr>;
          extractMask = Mat_zeros (rows (src s0)) (cols (src s0));
          area = int32 (cols (src s0) * rows (src s0))
      in case rankLoop cv contours_poly boundRect area 0 (s0, extractMask) of
           Inl e \<Rightarrow> Inl e
         | Inr st1 \<Rightarrow>
             if rankBrYPosition (fst st1) < 0 then Inr (fst st1)
             else (case suitLoop cv contours_poly boundRect area 0 st1 of
                     Inl e \<Rightarrow> Inl e
                   | Inr st2 \<Rightarrow>
                       Inr (if \<not> Mat_empty (rank (fst st2)) \<and> \<not> Mat_empty (suit (fst st2))
                               \<and> enableShowResult (fst st2)
                            then Extractor_showResult (fst st2) else fst st2)))"

text \<open>Lines 30 to 36. The height of the region is \<^verbatim>\<open>input.rows / 3.5\<close> converted to
  \<^verbatim>\<open>int\<close>: for a number of rows that is not negative this is \<open>2 * rows div 7\<close>, rounded
  towards zero (the quotient in \<^verbatim>\<open>double\<close> is nearer to the exact one than the exact one
  is to the next integer).\<close>

definition Extractor_extract :: "OpenCV \<Rightarrow> Vec3b Mat \<Rightarrow> Extractor \<Rightarrow> exn + (bool \<times> Extractor)" where
  "Extractor_extract cv input s =
     (case Mat_roi input \<lparr>rect_x = 0, rect_y = 0, rect_width = cdiv (cols input) 4,
                          rect_height = cdiv (2 * rows input) 7\<rparr> of
        Inl e \<Rightarrow> Inl e
      | Inr region \<Rightarrow>
          (let s1 = s\<lparr>src := region\<rparr>;
               s2 = s1\<lparr>src_gray := cvtColor cv (src s1)\<rparr>;
               s3 = s2\<lparr>src_gray := blur cv (src_gray s2) (3, 3)\<rparr>
           in case Extractor_findSubImages cv s3 of
                Inl e \<Rightarrow> Inl e
              | Inr s4 \<Rightarrow> Inr (\<not> (Mat_empty (rank s4) \<or> Mat_empty (suit s4)), s4)))"

section \<open>The filters as the specification words them\<close>

text \<open>The rank filter of the specification: a contour \<open>c\<close>, given by its bounding box,
  passes when its area is at least a tenth of the region's, the truncated quotient of
  its height by its width lies between 1 and 4, and the bottom-right corner of its box
  lies at or before three quarters of the region's width and height.\<close>

definition rank_filter :: "int \<Rightarrow> int \<Rightarrow> int \<Rightarrow> Rect \<Rightarrow> bool" where
  "rank_filter regionArea regionWidth regionHeight c \<longleftrightarrow>
     rect_height c * rect_width c \<ge> cdiv regionArea 10 \<and>
     1 \<le> cdiv (rect_height c) (rect_width c) \<and> cdiv (rect_height c) (rect_width c) \<le> 4 \<and>
     pt_x (Rect_br c) \<le> cdiv (3 * regionWidth) 4 \<and>
     pt_y (Rect_br c) \<le> cdiv (3 * regionHeight) 4"

text \<open>The suit filter of the specification, for a rank whose bottom-right corner is
  \<open>(rankX, rankY)\<close>.\<close>

definition suit_filter :: "int \<Rightarrow> int \<Rightarrow> int \<Rightarrow> int \<Rightarrow> int \<Rightarrow> Rect \<Rightarrow> bool" where
  "suit_filter regionArea regionWidth ERROR_MARGIN rankX rankY c \<longleftrightarrow>
     rect_height c * rect_width c \<ge> cdiv regionArea 25 \<and>
     1 \<le> cdiv (rect_height c) (rect_width c) \<and> cdiv (rect_height c) (rect_width c) \<le> 4 \<and>
     pt_y (Rect_br c) > rankY + ERROR_MARGIN \<and>
     pt_x (Rect_br c) < rankX + cdiv regionWidth 6"

text \<open>"The first contour such that": index \<open>i\<close> is the first of the list whose element
  passes \<open>P\<close>.\<close>

definition first_at :: "('a \<Rightarrow> bool) \<Rightarrow> 'a list \<Rightarrow> nat \<Rightarrow> bool" where
  "first_at P xs i \<longleftrightarrow> i < length xs \<and> P (xs ! i) \<and> (\<forall>j<i. \<not> P (xs ! j))"

text \<open>The sizes for which the arithmetic of the class stays within 32 bits, so that its
  tests are the ones the specification writes with exact numbers: a region whose area
  and whose tripled sides are below \<open>2^31\<close>, and a bounding box that lies in the region
  and has a column (as the box of every contour found in the region does).\<close>

definition region_fits :: "'p Mat \<Rightarrow> bool" where
  "region_fits m \<longleftrightarrow>
     0 \<le> cols m \<and> 0 \<le> rows m \<and> cols m * rows m < 2147483648 \<and>
     3 * cols m < 2147483648 \<and> 3 * rows m < 2147483648"

definition box_in :: "'p Mat \<Rightarrow> Rect \<Rightarrow> bool" where
  "box_in m r \<longleftrightarrow>
     0 \<le> rect_x r \<and> 0 \<le> rect_y r \<and> 0 < rect_width r \<and> 0 \<le> rect_height r \<and>
     rect_x r + rect_width r \<le> cols m \<and> rect_y r + rect_height r \<le> rows m"

section \<open>An instance to evaluate on\<close>

text \<open>Stand-ins for the library, to run the class on concrete cards. The bounding box of
  a polygon is the smallest upright rectangle that holds its points (a point at its
  right and bottom edge included, so the width is \<open>xmax - xmin + 1\<close>). Drawing a contour
  marks its vertices, which every drawing of it contains. The contours found depend on
  the first pixel of the card only, so that one card stands for each scene.\<close>

definition boundingRect_pts :: "Point list \<Rightarrow> Rect" where
  "boundingRect_pts pts =
     (case pts of
        [] \<Rightarrow> \<lparr>rect_x = 0, rect_y = 0, rect_width = 0, rect_height = 0\<rparr>
      | p # ps \<Rightarrow>
          (let xmin = fold min (map pt_x ps) (pt_x p); xmax = fold max (map pt_x ps) (pt_x p);
               ymin = fold min (map pt_y ps) (pt_y p); ymax = fold max (map pt_y ps) (pt_y p)
           in \<lparr>rect_x = xmin, rect_y = ymin, rect_width = xmax - xmin + 1,
                rect_height = ymax - ymin + 1\<rparr>))"

definition drawVertices ::
  "Vec3b Mat \<Rightarrow> Point list list \<Rightarrow> nat \<Rightarrow> Scalar \<Rightarrow> int \<Rightarrow> Vec3b Mat" where
  "drawVertices img cs i color thickness =
     (case color of (c0, c1, c2, c3) \<Rightarrow>
        img\<lparr>at := (\<lambda>y x. if Point x y \<in> set (cs ! i)
                          then (word_of_int c0, word_of_int c1, word_of_int c2)
                          else at img y x)\<rparr>)"

text \<open>Rectangle A with bounding box (10,10)-(40,70), rectangle B with bounding box
  (10,85)-(35,120), and a triangle with the bounding box of A.\<close>

definition rectA :: "Point list" where
  "rectA = [Point 10 10, Point 39 10, Point 39 69, Point 10 69]"

definition rectB :: "Point list" where
  "rectB = [Point 10 85, Point 34 85, Point 34 119, Point 10 119]"

definition triA :: "Point list" where
  "triA = [Point 24 10, Point 39 69, Point 10 69]"

definition boxA :: Rect where
  "boxA = \<lparr>rect_x = 10, rect_y = 10, rect_width = 30, rect_height = 60\<rparr>"

definition boxB :: Rect where
  "boxB = \<lparr>rect_x = 10, rect_y = 85, rect_width = 25, rect_height = 35\<rparr>"

text \<open>Eight boxes in a region of 100 columns and 140 rows, and the rectangle that has a
  given box. As rank, the first five fail one test each (area, height by width above 4,
  height by width below 1, \<open>x\<close>, \<open>y\<close>) and the sixth passes, with its bottom edge exactly
  at three quarters of the height. As suit for the corner (40, 105) of the sixth, the
  first seven fail (area, the two ratio tests, \<open>y\<close> three times, \<open>x\<close>) and the last
  passes.\<close>

definition manyBoxes :: "Rect list" where
  "manyBoxes =
     [\<lparr>rect_x = 5, rect_y = 5, rect_width = 10, rect_height = 20\<rparr>,
      \<lparr>rect_x = 2, rect_y = 2, rect_width = 18, rect_height = 90\<rparr>,
      \<lparr>rect_x = 2, rect_y = 2, rect_width = 50, rect_height = 40\<rparr>,
      \<lparr>rect_x = 50, rect_y = 10, rect_width = 30, rect_height = 60\<rparr>,
      \<lparr>rect_x = 10, rect_y = 50, rect_width = 30, rect_height = 60\<rparr>,
      \<lparr>rect_x = 10, rect_y = 45, rect_width = 30, rect_height = 60\<rparr>,
      \<lparr>rect_x = 40, rect_y = 100, rect_width = 20, rect_height = 30\<rparr>,
      \<lparr>rect_x = 10, rect_y = 112, rect_width = 25, rect_height = 28\<rparr>]"

definition boxPoly :: "Rect \<Rightarrow> Point list" where
  "boxPoly r =
     [Point (rect_x r) (rect_y r), Point (rect_x r + rect_width r - 1) (rect_y r),
      Point (rect_x r + rect_width r - 1) (rect_y r + rect_height r - 1),
      Point (rect_x r) (rect_y r + rect_height r - 1)]"

definition scene :: "uchar \<Rightarrow> Point list list" where
  "scene k = (if k = 1 then [rectA, rectB] else if k = 2 then [triA, rectB]
              else if k = 3 then [rectA] else if k = 4 then [rectB]
              else if k = 5 then map boxPoly manyBoxes else [])"

definition testCv :: OpenCV where
  "testCv =
     \<lparr>cvtColor = (\<lambda>m. \<lparr>rows = rows m, cols = cols m, at = (\<lambda>i j. fst (at m i j))\<rparr>),
      blur = (\<lambda>m k. m),
      Canny = (\<lambda>m t1 t2. m),
      findContours = (\<lambda>m. scene (at m 0 0)),
      approxPolyDP = (\<lambda>c eps closed. c),
      boundingRect = boundingRect_pts,
      drawContours = drawVertices,
      rectangle = (\<lambda>img p q c t. img),
      uniform = (\<lambda>g a b. (a, g + 1))\<rparr>"

text \<open>A card of \<open>r\<close> rows and \<open>c\<close> columns in one colour, whose first channel names the
  scene; and a new object, with \<open>-1\<close> for the two positions and 5 for \<open>error\<close>.\<close>

definition cardImage :: "int \<Rightarrow> int \<Rightarrow> uchar \<Rightarrow> Vec3b Mat" where
  "cardImage r c k = \<lparr>rows = r, cols = c, at = (\<lambda>i j. (k, 200, 100))\<rparr>"

definition fresh :: Extractor where
  "fresh = new_Extractor (- 1) (- 1) 5 0 False"

section \<open>What the parts of the class do\<close>

text \<open>The masked copy onto a clone of the same image changes nothing, whatever the mask:
  the sub-image of a contour is the region cut to the bounding box.\<close>

lemma masked_same: "masked k p p = p"
  by (cases k rule: prod_cases3; cases p rule: prod_cases3) simp

lemma copyTo_clone: "Mat_copyTo m (Mat_clone m) msk = m"
  by (simp add: Mat_copyTo_def Mat_clone_def masked_same)

lemma createImg_eq:
  "createImg cv polys rects i img m =
     (case Mat_roi img (rects ! i) of
        Inl e \<Rightarrow> Inl e
      | Inr sub \<Rightarrow> Inr (sub, drawContours cv m polys i (255, 0, 0, 0) 0))"
  by (simp add: createImg_def copyTo_clone Let_def)

lemma drawForWindow_fields:
  "rank (drawForWindow cv polys rects i s) = rank s"
  "suit (drawForWindow cv polys rects i s) = suit s"
  "src (drawForWindow cv polys rects i s) = src s"
  "src_gray (drawForWindow cv polys rects i s) = src_gray s"
  "rankBrYPosition (drawForWindow cv polys rects i s) = rankBrYPosition s"
  "rankBrXPosition (drawForWindow cv polys rects i s) = rankBrXPosition s"
  "error (drawForWindow cv polys rects i s) = error s"
  "enableShowResult (drawForWindow cv polys rects i s) = enableShowResult s"
  by (simp_all add: drawForWindow_def Let_def split: prod.splits)

lemma Mat_roi_Inr:
  assumes "Mat_roi m r = Inr sub"
  shows "0 \<le> rect_x r" "0 \<le> rect_y r" "0 \<le> rect_width r" "0 \<le> rect_height r"
    "rect_x r + rect_width r \<le> cols m" "rect_y r + rect_height r \<le> rows m"
    "Mat_empty sub \<longleftrightarrow> rect_width r = 0 \<or> rect_height r = 0"
  using assms by (auto simp: Mat_roi_def Mat_empty_def split: if_splits)

lemma rankFound_Inr:
  assumes "rankFound cv polys rects i st = Inr st'"
  shows "Mat_roi (src (fst st)) (rects ! i) = Inr (rank (fst st'))"
    and "rankBrYPosition (fst st') = pt_y (Rect_br (rects ! i))"
    and "rankBrXPosition (fst st') = pt_x (Rect_br (rects ! i))"
    and "suit (fst st') = suit (fst st)"
    and "src (fst st') = src (fst st)"
    and "src_gray (fst st') = src_gray (fst st)"
    and "error (fst st') = error (fst st)"
    and "enableShowResult (fst st') = enableShowResult (fst st)"
    and "snd st' = drawContours cv (snd st) polys i (255, 0, 0, 0) 0"
  using assms
  by (auto simp: rankFound_def createImg_eq Let_def drawForWindow_fields split: sum.splits)

lemma suitFound_Inr:
  assumes "suitFound cv polys rects i st = Inr st'"
  shows "Mat_roi (src (fst st)) (rects ! i) = Inr (suit (fst st'))"
    and "rankBrYPosition (fst st') = rankBrYPosition (fst st)"
    and "rankBrXPosition (fst st') = rankBrXPosition (fst st)"
    and "rank (fst st') = rank (fst st)"
    and "src (fst st') = src (fst st)"
    and "src_gray (fst st') = src_gray (fst st)"
    and "error (fst st') = error (fst st)"
    and "enableShowResult (fst st') = enableShowResult (fst st)"
    and "snd st' = drawContours cv (snd st) polys i (255, 0, 0, 0) 0"
  using assms
  by (auto simp: suitFound_def createImg_eq Let_def drawForWindow_fields split: sum.splits)

subsection \<open>The tests within 32 bits\<close>

text \<open>For a region that fits and a box in it no sum or product of the two tests leaves
  the range of \<^verbatim>\<open>int\<close>, the width of the box is not zero, and the tests of the code
  are the filters of the specification, negated.\<close>

lemma int32_id: "- 2147483648 \<le> k \<Longrightarrow> k < 2147483648 \<Longrightarrow> int32 k = k"
  by (simp add: int32_def)

lemma box_in_fits:
  assumes "region_fits m" and "box_in m r"
  shows "pt_x (Rect_br r) = rect_x r + rect_width r"
    and "pt_y (Rect_br r) = rect_y r + rect_height r"
    and "pt_x (Rect_tl r) = rect_x r" and "pt_y (Rect_tl r) = rect_y r"
    and "int32 (rect_width r) = rect_width r"
    and "int32 (rect_height r) = rect_height r"
    and "int32 (rect_height r * rect_width r) = rect_height r * rect_width r"
    and "int32 (cols m * rows m) = cols m * rows m"
    and "int32 (3 * cols m) = 3 * cols m"
    and "int32 (3 * rows m) = 3 * rows m"
proof -
  from assms have b: "0 \<le> rect_x r" "0 \<le> rect_y r" "0 < rect_width r" "0 \<le> rect_height r"
    "rect_x r + rect_width r \<le> cols m" "rect_y r + rect_height r \<le> rows m"
    "0 \<le> cols m" "0 \<le> rows m" "cols m * rows m < 2147483648"
    "3 * cols m < 2147483648" "3 * rows m < 2147483648"
    by (simp_all add: region_fits_def box_in_def)
  have "rect_height r * rect_width r \<le> rows m * cols m"
    using b by (intro mult_mono) simp_all
  with b have p: "0 \<le> rect_height r * rect_width r" "rect_height r * rect_width r < 2147483648"
    by (simp_all add: mult.commute)
  have a: "0 \<le> cols m * rows m" using b by simp
  show x: "pt_x (Rect_br r) = rect_x r + rect_width r"
    and y: "pt_y (Rect_br r) = rect_y r + rect_height r"
    using b by (simp_all add: Rect_br_def int32_id)
  show "pt_x (Rect_tl r) = rect_x r" and "pt_y (Rect_tl r) = rect_y r"
    by (simp_all add: Rect_tl_def)
  show "int32 (rect_width r) = rect_width r" and "int32 (rect_height r) = rect_height r"
    using b by (simp_all add: int32_id)
  show "int32 (rect_height r * rect_width r) = rect_height r * rect_width r"
    by (rule int32_id) (use p in linarith)+
  show "int32 (cols m * rows m) = cols m * rows m"
    by (rule int32_id) (use a b in linarith)+
  show "int32 (3 * cols m) = 3 * cols m" "int32 (3 * rows m) = 3 * rows m"
    using b by (simp_all add: int32_id)
qed

lemma rankReject_fits:
  assumes "region_fits m" and "box_in m r"
  shows "rankReject (int32 (cols m * rows m)) m r =
           Inr (\<not> rank_filter (cols m * rows m) (cols m) (rows m) r)"
proof -
  from assms(2) have "rect_width r \<noteq> 0" by (simp add: box_in_def)
  then show ?thesis
    by (auto simp: rankReject_def rank_filter_def Let_def box_in_fits [OF assms])
qed

lemma suitReject_fits:
  assumes "region_fits (src s)" and "box_in (src s) r"
    and "0 \<le> rankBrXPosition s" and "rankBrXPosition s \<le> cols (src s)"
    and "0 \<le> rankBrYPosition s" and "rankBrYPosition s \<le> rows (src s)"
    and "\<bar>error s\<bar> \<le> 1073741824"
  shows "suitReject (int32 (cols (src s) * rows (src s))) s r =
           Inr (\<not> suit_filter (cols (src s) * rows (src s)) (cols (src s)) (error s)
                    (rankBrXPosition s) (rankBrYPosition s) r)"
proof -
  from assms(2) have w: "rect_width r \<noteq> 0" by (simp add: box_in_def)
  from assms(1) have f: "0 \<le> cols (src s)" "3 * cols (src s) < 2147483648"
    "3 * rows (src s) < 2147483648" by (simp_all add: region_fits_def)
  have y: "int32 (rankBrYPosition s + error s) = rankBrYPosition s + error s"
    using assms(5,6,7) f by (intro int32_id) simp_all
  have "0 \<le> cdiv (cols (src s)) 6" "cdiv (cols (src s)) 6 \<le> cols (src s)"
    using f by (auto simp: cdiv_def sgn_if)
  then have x: "int32 (rankBrXPosition s + cdiv (cols (src s)) 6) =
      rankBrXPosition s + cdiv (cols (src s)) 6"
    using assms(3,4) f by (intro int32_id) simp_all
  from w show ?thesis
    by (auto simp: suitReject_def suit_filter_def Let_def x y box_in_fits [OF assms(1,2)])
qed

lemma suitReject_returns:
  assumes "region_fits (src s)" and "box_in (src s) r"
  shows "\<exists>b. suitReject area s r = Inr b"
proof -
  from assms(2) have "rect_width r \<noteq> 0" by (simp add: box_in_def)
  then show ?thesis
    by (auto simp: suitReject_def Let_def box_in_fits [OF assms])
qed

lemma rankReject_returns:
  assumes "region_fits m" and "box_in m r"
  shows "\<exists>b. rankReject area m r = Inr b"
proof -
  from assms(2) have "rect_width r \<noteq> 0" by (simp add: box_in_def)
  then show ?thesis
    by (auto simp: rankReject_def Let_def box_in_fits [OF assms])
qed

subsection \<open>The loops\<close>

text \<open>The first index that passes a test is unique, and there is one unless no index
  passes.\<close>

lemma first_at_unique:
  assumes "first_at P xs i" and "first_at P xs k"
  shows "k = i"
proof (rule linorder_cases [of k i])
  assume "k < i"
  with assms show ?thesis by (simp add: first_at_def)
next
  assume "i < k"
  with assms show ?thesis by (simp add: first_at_def)
qed

lemma first_at_or_none:
  "(\<exists>i. first_at P xs i) \<or> (\<forall>j<length xs. \<not> P (xs ! j))"
proof (cases "\<exists>j. j < length xs \<and> P (xs ! j)")
  case True
  then obtain k where k: "k < length xs \<and> P (xs ! k)"
    and least: "\<forall>m<k. \<not> (m < length xs \<and> P (xs ! m))"
    unfolding exists_least_iff [of "\<lambda>j. j < length xs \<and> P (xs ! j)"] by blast
  have "\<not> P (xs ! j)" if "j < k" for j
  proof -
    from that k have "j < length xs" by simp
    with least that show ?thesis by simp
  qed
  with k have "first_at P xs k" by (simp add: first_at_def)
  then show ?thesis by blast
next
  case False
  then show ?thesis by blast
qed

text \<open>A loop passes over the contours its test rejects (\<^verbatim>\<open>continue\<close>), up to the first
  it accepts or to the end of the list.\<close>

lemma rankLoop_skip:
  assumes "\<forall>j. i \<le> j \<and> j < k \<longrightarrow> rankReject area (src (fst st)) (rects ! j) = Inr True"
    and "i \<le> k" and "k \<le> length polys"
  shows "rankLoop cv polys rects area i st = rankLoop cv polys rects area k st"
  using assms
proof (induction "k - i" arbitrary: i)
  case 0
  then show ?case by simp
next
  case (Suc n)
  then have i: "i < k" "i < length polys" and n: "n = k - Suc i" by simp_all
  from Suc.prems(1) i have r: "rankReject area (src (fst st)) (rects ! i) = Inr True" by simp
  have "rankLoop cv polys rects area i st = rankLoop cv polys rects area (Suc i) st"
    using i r by (subst rankLoop.simps) simp
  also have "\<dots> = rankLoop cv polys rects area k st"
    using Suc.hyps(1) [OF n] Suc.prems i by simp
  finally show ?case .
qed

lemma suitLoop_skip:
  assumes "\<forall>j. i \<le> j \<and> j < k \<longrightarrow> suitReject area (fst st) (rects ! j) = Inr True"
    and "i \<le> k" and "k \<le> length polys"
  shows "suitLoop cv polys rects area i st = suitLoop cv polys rects area k st"
  using assms
proof (induction "k - i" arbitrary: i)
  case 0
  then show ?case by simp
next
  case (Suc n)
  then have i: "i < k" "i < length polys" and n: "n = k - Suc i" by simp_all
  from Suc.prems(1) i have r: "suitReject area (fst st) (rects ! i) = Inr True" by simp
  have "suitLoop cv polys rects area i st = suitLoop cv polys rects area (Suc i) st"
    using i r by (subst suitLoop.simps) simp
  also have "\<dots> = suitLoop cv polys rects area k st"
    using Suc.hyps(1) [OF n] Suc.prems i by simp
  finally show ?case .
qed

lemma rankLoop_select:
  assumes "k < length polys"
    and "\<forall>j<k. rankReject area (src (fst st)) (rects ! j) = Inr True"
    and "rankReject area (src (fst st)) (rects ! k) = Inr b" and "b \<longleftrightarrow> False"
  shows "rankLoop cv polys rects area 0 st = rankFound cv polys rects k st"
proof -
  have "rankLoop cv polys rects area 0 st = rankLoop cv polys rects area k st"
    using assms(1,2) by (intro rankLoop_skip) simp_all
  also have "\<dots> = rankFound cv polys rects k st"
    using assms(1,3,4) by (subst rankLoop.simps) simp
  finally show ?thesis .
qed

lemma rankLoop_none:
  assumes "\<forall>j<length polys. rankReject area (src (fst st)) (rects ! j) = Inr True"
  shows "rankLoop cv polys rects area 0 st = Inr st"
proof -
  have "rankLoop cv polys rects area 0 st = rankLoop cv polys rects area (length polys) st"
    using assms by (intro rankLoop_skip) simp_all
  also have "\<dots> = Inr st" by (subst rankLoop.simps) simp
  finally show ?thesis .
qed

lemma suitLoop_select:
  assumes "k < length polys"
    and "\<forall>j<k. suitReject area (fst st) (rects ! j) = Inr True"
    and "suitReject area (fst st) (rects ! k) = Inr b" and "b \<longleftrightarrow> False"
  shows "suitLoop cv polys rects area 0 st = suitFound cv polys rects k st"
proof -
  have "suitLoop cv polys rects area 0 st = suitLoop cv polys rects area k st"
    using assms(1,2) by (intro suitLoop_skip) simp_all
  also have "\<dots> = suitFound cv polys rects k st"
    using assms(1,3,4) by (subst suitLoop.simps) simp
  finally show ?thesis .
qed


lemma suitLoop_none:
  assumes "\<forall>j<length polys. suitReject area (fst st) (rects ! j) = Inr True"
  shows "suitLoop cv polys rects area 0 st = Inr st"
proof -
  have "suitLoop cv polys rects area 0 st = suitLoop cv polys rects area (length polys) st"
    using assms by (intro suitLoop_skip) simp_all
  also have "\<dots> = Inr st" by (subst suitLoop.simps) simp
  finally show ?thesis .
qed

text \<open>Within the sizes above both loops return, and select by the filters of the
  specification.\<close>

lemma Mat_roi_box_in:
  assumes "box_in m r"
  shows "\<exists>sub. Mat_roi m r = Inr sub"
  using assms by (simp add: Mat_roi_def box_in_def)

lemma rankFound_returns:
  assumes "box_in (src (fst st)) (rects ! i)"
  shows "\<exists>st'. rankFound cv polys rects i st = Inr st'"
  using Mat_roi_box_in [OF assms]
  by (auto simp: rankFound_def createImg_eq Let_def)

lemma suitFound_returns:
  assumes "box_in (src (fst st)) (rects ! i)"
  shows "\<exists>st'. suitFound cv polys rects i st = Inr st'"
  using Mat_roi_box_in [OF assms]
  by (auto simp: suitFound_def createImg_eq)

lemma suitLoop_returns:
  assumes fits: "region_fits (src (fst st))"
    and boxes: "list_all (box_in (src (fst st))) rects"
    and len: "length rects = length polys"
  shows "\<exists>st'. suitLoop cv polys rects area 0 st = Inr st' \<and>
           rank (fst st') = rank (fst st) \<and>
           rankBrXPosition (fst st') = rankBrXPosition (fst st) \<and>
           rankBrYPosition (fst st') = rankBrYPosition (fst st) \<and>
           src (fst st') = src (fst st) \<and> src_gray (fst st') = src_gray (fst st) \<and>
           error (fst st') = error (fst st)"
proof -
  let ?stop = "\<lambda>r. suitReject area (fst st) r = Inr False"
  have box: "box_in (src (fst st)) (rects ! j)" if "j < length rects" for j
    using boxes that by (simp add: list_all_length)
  have rej: "suitReject area (fst st) (rects ! j) = Inr True"
    if "j < length rects" "\<not> ?stop (rects ! j)" for j
    using suitReject_returns [OF fits box [OF that(1)], of area] that(2) by auto
  from first_at_or_none [of ?stop rects] show ?thesis
  proof
    assume "\<exists>k. first_at ?stop rects k"
    then obtain k where k: "k < length rects" "?stop (rects ! k)"
      "\<forall>j<k. \<not> ?stop (rects ! j)" by (auto simp: first_at_def)
    have "suitLoop cv polys rects area 0 st = suitFound cv polys rects k st"
      using k rej len by (intro suitLoop_select [where b = False]) auto
    moreover obtain st' where f: "suitFound cv polys rects k st = Inr st'"
      using suitFound_returns [OF box [OF k(1)]] by blast
    ultimately show ?thesis using suitFound_Inr [OF f] by simp
  next
    assume "\<forall>j<length rects. \<not> ?stop (rects ! j)"
    then have "suitLoop cv polys rects area 0 st = Inr st"
      using rej len by (intro suitLoop_none) auto
    then show ?thesis by simp
  qed
qed

lemma suitLoop_fits:
  assumes fits: "region_fits (src (fst st))"
    and boxes: "list_all (box_in (src (fst st))) rects"
    and len: "length rects = length polys"
    and corner: "0 \<le> rankBrXPosition (fst st)" "rankBrXPosition (fst st) \<le> cols (src (fst st))"
      "0 \<le> rankBrYPosition (fst st)" "rankBrYPosition (fst st) \<le> rows (src (fst st))"
    and err: "\<bar>error (fst st)\<bar> \<le> 1073741824"
  shows "(first_at (suit_filter (cols (src (fst st)) * rows (src (fst st))) (cols (src (fst st)))
                     (error (fst st)) (rankBrXPosition (fst st)) (rankBrYPosition (fst st)))
            rects k \<longrightarrow>
          suitLoop cv polys rects (int32 (cols (src (fst st)) * rows (src (fst st)))) 0 st =
            suitFound cv polys rects k st) \<and>
         ((\<forall>j<length rects.
             \<not> suit_filter (cols (src (fst st)) * rows (src (fst st))) (cols (src (fst st)))
                 (error (fst st)) (rankBrXPosition (fst st)) (rankBrYPosition (fst st))
                 (rects ! j)) \<longrightarrow>
          suitLoop cv polys rects (int32 (cols (src (fst st)) * rows (src (fst st)))) 0 st =
            Inr st)"
proof -
  let ?SF = "suit_filter (cols (src (fst st)) * rows (src (fst st))) (cols (src (fst st)))
                     (error (fst st)) (rankBrXPosition (fst st)) (rankBrYPosition (fst st))"
  let ?A = "int32 (cols (src (fst st)) * rows (src (fst st)))"
  have rej: "suitReject ?A (fst st) (rects ! j) = Inr (\<not> ?SF (rects ! j))"
    if "j < length rects" for j
    using boxes that by (intro suitReject_fits fits corner err) (simp add: list_all_length)
  have a: "suitLoop cv polys rects ?A 0 st = suitFound cv polys rects k st"
    if "first_at ?SF rects k"
    using that rej len
    by (intro suitLoop_select [where b = "\<not> ?SF (rects ! k)"]) (auto simp: first_at_def)
  have b: "suitLoop cv polys rects ?A 0 st = Inr st"
    if "\<forall>j<length rects. \<not> ?SF (rects ! j)"
    using that rej len by (intro suitLoop_none) auto
  from a b show ?thesis by blast
qed

lemma rankLoop_fits:
  assumes fits: "region_fits (src (fst st))"
    and boxes: "list_all (box_in (src (fst st))) rects"
    and len: "length rects = length polys"
  shows "(first_at (rank_filter (cols (src (fst st)) * rows (src (fst st)))
                     (cols (src (fst st))) (rows (src (fst st)))) rects k \<longrightarrow>
          rankLoop cv polys rects (int32 (cols (src (fst st)) * rows (src (fst st)))) 0 st =
            rankFound cv polys rects k st) \<and>
         ((\<forall>j<length rects.
             \<not> rank_filter (cols (src (fst st)) * rows (src (fst st)))
                 (cols (src (fst st))) (rows (src (fst st))) (rects ! j)) \<longrightarrow>
          rankLoop cv polys rects (int32 (cols (src (fst st)) * rows (src (fst st)))) 0 st =
            Inr st)"
proof -
  let ?RF = "rank_filter (cols (src (fst st)) * rows (src (fst st)))
                     (cols (src (fst st))) (rows (src (fst st)))"
  let ?A = "int32 (cols (src (fst st)) * rows (src (fst st)))"
  have rej: "rankReject ?A (src (fst st)) (rects ! j) = Inr (\<not> ?RF (rects ! j))"
    if "j < length rects" for j
    using boxes that by (intro rankReject_fits fits) (simp add: list_all_length)
  have a: "rankLoop cv polys rects ?A 0 st = rankFound cv polys rects k st"
    if "first_at ?RF rects k"
    using that rej len
    by (intro rankLoop_select [where b = "\<not> ?RF (rects ! k)"]) (auto simp: first_at_def)
  have b: "rankLoop cv polys rects ?A 0 st = Inr st"
    if "\<forall>j<length rects. \<not> ?RF (rects ! j)"
    using that rej len by (intro rankLoop_none) auto
  from a b show ?thesis by blast
qed

subsection \<open>The cases of a call\<close>

text \<open>For a region that fits, with every bounding box in it, \<open>findSubImages\<close> and
  \<open>extract\<close> return, and what they leave is one of: no box passes the rank filter and
  the rank fields are as before; or the first box that passes is the rank and, for its
  corner, the first box that passes the suit filter is the suit, or none passes and
  \<open>suit\<close> is as before.\<close>

lemma length_boundRect_of: "length (boundRect_of cv g) = length (contours_poly_of cv g)"
  by (simp add: boundRect_of_def)

lemma findSubImages_cases:
  assumes fits: "region_fits (src s)"
    and boxes: "list_all (box_in (src s)) (boundRect_of cv (src_gray s))"
  shows "\<exists>s'. Extractor_findSubImages cv s = Inr s' \<and>
     src s' = src s \<and> src_gray s' = src_gray s \<and> error s' = error s \<and>
     (((\<forall>j<length (boundRect_of cv (src_gray s)).
          \<not> rank_filter (cols (src s) * rows (src s)) (cols (src s)) (rows (src s))
              (boundRect_of cv (src_gray s) ! j)) \<and>
       rank s' = rank s \<and> rankBrXPosition s' = rankBrXPosition s \<and>
       rankBrYPosition s' = rankBrYPosition s \<and>
       (rankBrYPosition s < 0 \<longrightarrow> suit s' = suit s))
      \<or> (\<exists>i. first_at (rank_filter (cols (src s) * rows (src s)) (cols (src s)) (rows (src s)))
                  (boundRect_of cv (src_gray s)) i \<and>
             Mat_roi (src s) (boundRect_of cv (src_gray s) ! i) = Inr (rank s') \<and>
             rankBrXPosition s' = pt_x (Rect_br (boundRect_of cv (src_gray s) ! i)) \<and>
             rankBrYPosition s' = pt_y (Rect_br (boundRect_of cv (src_gray s) ! i)) \<and>
             (\<bar>error s\<bar> \<le> 1073741824 \<longrightarrow>
                (\<exists>k. first_at (suit_filter (cols (src s) * rows (src s)) (cols (src s)) (error s)
                              (pt_x (Rect_br (boundRect_of cv (src_gray s) ! i)))
                              (pt_y (Rect_br (boundRect_of cv (src_gray s) ! i))))
                         (boundRect_of cv (src_gray s)) k \<and>
                     Mat_roi (src s) (boundRect_of cv (src_gray s) ! k) = Inr (suit s'))
                \<or> ((\<forall>j<length (boundRect_of cv (src_gray s)).
                       \<not> suit_filter (cols (src s) * rows (src s)) (cols (src s)) (error s)
                           (pt_x (Rect_br (boundRect_of cv (src_gray s) ! i)))
                           (pt_y (Rect_br (boundRect_of cv (src_gray s) ! i)))
                           (boundRect_of cv (src_gray s) ! j)) \<and>
                     suit s' = suit s))))"
proof -
  let ?P = "contours_poly_of cv (src_gray s)"
  let ?B = "boundRect_of cv (src_gray s)"
  let ?A = "int32 (cols (src s) * rows (src s))"
  let ?RF = "rank_filter (cols (src s) * rows (src s)) (cols (src s)) (rows (src s))"
  let ?s0 = "s\<lparr>drawing := Mat_zeros (rows (canny_output cv (src_gray s)))
                                   (cols (canny_output cv (src_gray s)))\<rparr>"
  let ?M = "Mat_zeros (rows (src s)) (cols (src s))"
  note len = length_boundRect_of [of cv "src_gray s"]
  have unfold: "Extractor_findSubImages cv s =
     (case rankLoop cv ?P ?B ?A 0 (?s0, ?M) of
        Inl e \<Rightarrow> Inl e
      | Inr st1 \<Rightarrow>
          if rankBrYPosition (fst st1) < 0 then Inr (fst st1)
          else (case suitLoop cv ?P ?B ?A 0 st1 of
                  Inl e \<Rightarrow> Inl e
                | Inr st2 \<Rightarrow> Inr (fst st2)))"
    by (simp add: Extractor_findSubImages_def Let_def Extractor_showResult_def
        cong: sum.case_cong if_cong)
  have fits0: "region_fits (src (fst (?s0, ?M)))"
    and boxes0: "list_all (box_in (src (fst (?s0, ?M)))) ?B"
    using fits boxes by simp_all
  note rl = rankLoop_fits [OF fits0 boxes0 len, where cv = cv, simplified]
  from first_at_or_none [of ?RF ?B] show ?thesis
  proof
    assume none: "\<forall>j<length ?B. \<not> ?RF (?B ! j)"
    with rl have r: "rankLoop cv ?P ?B ?A 0 (?s0, ?M) = Inr (?s0, ?M)" by blast
    show ?thesis
    proof (cases "rankBrYPosition s < 0")
      case True
      with r none show ?thesis by (simp add: unfold)
    next
      case False
      from suitLoop_returns [OF fits0 boxes0 len, where cv = cv and area = ?A]
      obtain st2 where "suitLoop cv ?P ?B ?A 0 (?s0, ?M) = Inr st2"
        "rank (fst st2) = rank s" "rankBrXPosition (fst st2) = rankBrXPosition s"
        "rankBrYPosition (fst st2) = rankBrYPosition s" "src (fst st2) = src s"
        "src_gray (fst st2) = src_gray s" "error (fst st2) = error s"
        by auto
      with r none False show ?thesis by (simp add: unfold)
    qed
  next
    assume "\<exists>i. first_at ?RF ?B i"
    then obtain i where i: "first_at ?RF ?B i" ..
    then have ilen: "i < length ?B" by (simp add: first_at_def)
    with boxes have bi: "box_in (src s) (?B ! i)" by (simp add: list_all_length)
    from rl i have r: "rankLoop cv ?P ?B ?A 0 (?s0, ?M) = rankFound cv ?P ?B i (?s0, ?M)"
      by blast
    from rankFound_returns [where st = "(?s0, ?M)" and rects = ?B and i = i and cv = cv and polys = ?P] bi
    obtain st1 where f: "rankFound cv ?P ?B i (?s0, ?M) = Inr st1" by auto
    note rf = rankFound_Inr [OF f, simplified]
    note bf = box_in_fits(1,2) [OF fits bi]
    from bi have nn: "0 \<le> pt_y (Rect_br (?B ! i))" "0 \<le> pt_x (Rect_br (?B ! i))"
      "pt_x (Rect_br (?B ! i)) \<le> cols (src s)" "pt_y (Rect_br (?B ! i)) \<le> rows (src s)"
      by (simp_all add: bf box_in_def)
    have fits1: "region_fits (src (fst st1))"
      and boxes1: "list_all (box_in (src (fst st1))) ?B"
      using fits boxes rf(5) by simp_all
    from suitLoop_returns [OF fits1 boxes1 len, where cv = cv and area = ?A]
    obtain st2 where l: "suitLoop cv ?P ?B ?A 0 st1 = Inr st2"
      and keep: "rank (fst st2) = rank (fst st1)"
        "rankBrXPosition (fst st2) = rankBrXPosition (fst st1)"
        "rankBrYPosition (fst st2) = rankBrYPosition (fst st1)" "src (fst st2) = src (fst st1)"
        "src_gray (fst st2) = src_gray (fst st1)" "error (fst st2) = error (fst st1)"
      by auto
    have res: "Extractor_findSubImages cv s = Inr (fst st2)"
      using r f l rf(2) nn(1) by (simp add: unfold)
    let ?SF = "suit_filter (cols (src s) * rows (src s)) (cols (src s)) (error s)
                 (pt_x (Rect_br (?B ! i))) (pt_y (Rect_br (?B ! i)))"
    have suit: "(\<exists>k. first_at ?SF ?B k \<and> Mat_roi (src s) (?B ! k) = Inr (suit (fst st2)))
        \<or> ((\<forall>j<length ?B. \<not> ?SF (?B ! j)) \<and> suit (fst st2) = suit s)"
      if err: "\<bar>error s\<bar> \<le> 1073741824"
    proof -
      have sl: "(first_at ?SF ?B k \<longrightarrow>
                  suitLoop cv ?P ?B ?A 0 st1 = suitFound cv ?P ?B k st1) \<and>
                ((\<forall>j<length ?B. \<not> ?SF (?B ! j)) \<longrightarrow> suitLoop cv ?P ?B ?A 0 st1 = Inr st1)"
        for k
        using suitLoop_fits [OF fits1 boxes1 len, where cv = cv and k = k] rf nn err by simp
      from first_at_or_none [of ?SF ?B] show ?thesis
      proof
        assume "\<exists>k. first_at ?SF ?B k"
        then obtain k where k: "first_at ?SF ?B k" ..
        with sl l have "suitFound cv ?P ?B k st1 = Inr st2" by metis
        from suitFound_Inr(1) [OF this] rf(5) k show ?thesis by auto
      next
        assume n: "\<forall>j<length ?B. \<not> ?SF (?B ! j)"
        with sl l have "st2 = st1" by simp
        with n rf(4) show ?thesis by simp
      qed
    qed
    from res i rf keep suit show ?thesis by auto
  qed
qed

lemma extract_cases:
  assumes roi: "Mat_roi input \<lparr>rect_x = 0, rect_y = 0, rect_width = cdiv (cols input) 4,
                     rect_height = cdiv (2 * rows input) 7\<rparr> = Inr region"
    and fits: "region_fits region"
    and boxes: "list_all (box_in region) (boundRect_of cv (blur cv (cvtColor cv region) (3, 3)))"
  shows "\<exists>ok s'. Extractor_extract cv input s = Inr (ok, s') \<and>
     ok = (\<not> (Mat_empty (rank s') \<or> Mat_empty (suit s'))) \<and>
     src s' = region \<and> src_gray s' = blur cv (cvtColor cv region) (3, 3) \<and>
     error s' = error s \<and>
     (((\<forall>j<length (boundRect_of cv (blur cv (cvtColor cv region) (3, 3))).
          \<not> rank_filter (cols region * rows region) (cols region) (rows region)
              (boundRect_of cv (blur cv (cvtColor cv region) (3, 3)) ! j)) \<and>
       rank s' = rank s \<and> rankBrXPosition s' = rankBrXPosition s \<and>
       rankBrYPosition s' = rankBrYPosition s \<and>
       (rankBrYPosition s < 0 \<longrightarrow> suit s' = suit s))
      \<or> (\<exists>i. first_at (rank_filter (cols region * rows region) (cols region) (rows region))
                  (boundRect_of cv (blur cv (cvtColor cv region) (3, 3))) i \<and>
             Mat_roi region (boundRect_of cv (blur cv (cvtColor cv region) (3, 3)) ! i) =
               Inr (rank s') \<and>
             rankBrXPosition s' =
               pt_x (Rect_br (boundRect_of cv (blur cv (cvtColor cv region) (3, 3)) ! i)) \<and>
             rankBrYPosition s' =
               pt_y (Rect_br (boundRect_of cv (blur cv (cvtColor cv region) (3, 3)) ! i)) \<and>
             (\<bar>error s\<bar> \<le> 1073741824 \<longrightarrow>
                (\<exists>k. first_at (suit_filter (cols region * rows region) (cols region) (error s)
                      (pt_x (Rect_br (boundRect_of cv (blur cv (cvtColor cv region) (3, 3)) ! i)))
                      (pt_y (Rect_br (boundRect_of cv (blur cv (cvtColor cv region) (3, 3)) ! i))))
                         (boundRect_of cv (blur cv (cvtColor cv region) (3, 3))) k \<and>
                     Mat_roi region (boundRect_of cv (blur cv (cvtColor cv region) (3, 3)) ! k) =
                       Inr (suit s'))
                \<or> ((\<forall>j<length (boundRect_of cv (blur cv (cvtColor cv region) (3, 3))).
                       \<not> suit_filter (cols region * rows region) (cols region) (error s)
                      (pt_x (Rect_br (boundRect_of cv (blur cv (cvtColor cv region) (3, 3)) ! i)))
                      (pt_y (Rect_br (boundRect_of cv (blur cv (cvtColor cv region) (3, 3)) ! i)))
                           (boundRect_of cv (blur cv (cvtColor cv region) (3, 3)) ! j)) \<and>
                     suit s' = suit s))))"
proof -
  let ?t = "s\<lparr>src := region, src_gray := blur cv (cvtColor cv region) (3, 3)\<rparr>"
  have u: "Extractor_extract cv input s =
     (case Extractor_findSubImages cv ?t of
        Inl e \<Rightarrow> Inl e
      | Inr s4 \<Rightarrow> Inr (\<not> (Mat_empty (rank s4) \<or> Mat_empty (suit s4)), s4))"
    using roi by (simp add: Extractor_extract_def Let_def)
  have "region_fits (src ?t)" "list_all (box_in (src ?t)) (boundRect_of cv (src_gray ?t))"
    using fits boxes by simp_all
  from findSubImages_cases [OF this] obtain s' where
    f: "Extractor_findSubImages cv ?t = Inr s'" and rest: "src s' = src ?t \<and> src_gray s' = src_gray ?t \<and> error s' = error ?t \<and>
     (((\<forall>j<length (boundRect_of cv (src_gray ?t)).
          \<not> rank_filter (cols (src ?t) * rows (src ?t)) (cols (src ?t)) (rows (src ?t))
              (boundRect_of cv (src_gray ?t) ! j)) \<and>
       rank s' = rank ?t \<and> rankBrXPosition s' = rankBrXPosition ?t \<and>
       rankBrYPosition s' = rankBrYPosition ?t \<and>
       (rankBrYPosition ?t < 0 \<longrightarrow> suit s' = suit ?t))
      \<or> (\<exists>i. first_at (rank_filter (cols (src ?t) * rows (src ?t)) (cols (src ?t)) (rows (src ?t)))
                  (boundRect_of cv (src_gray ?t)) i \<and>
             Mat_roi (src ?t) (boundRect_of cv (src_gray ?t) ! i) = Inr (rank s') \<and>
             rankBrXPosition s' = pt_x (Rect_br (boundRect_of cv (src_gray ?t) ! i)) \<and>
             rankBrYPosition s' = pt_y (Rect_br (boundRect_of cv (src_gray ?t) ! i)) \<and>
             (\<bar>error ?t\<bar> \<le> 1073741824 \<longrightarrow>
                (\<exists>k. first_at (suit_filter (cols (src ?t) * rows (src ?t)) (cols (src ?t)) (error ?t)
                              (pt_x (Rect_br (boundRect_of cv (src_gray ?t) ! i)))
                              (pt_y (Rect_br (boundRect_of cv (src_gray ?t) ! i))))
                         (boundRect_of cv (src_gray ?t)) k \<and>
                     Mat_roi (src ?t) (boundRect_of cv (src_gray ?t) ! k) = Inr (suit s'))
                \<or> ((\<forall>j<length (boundRect_of cv (src_gray ?t)).
                       \<not> suit_filter (cols (src ?t) * rows (src ?t)) (cols (src ?t)) (error ?t)
                           (pt_x (Rect_br (boundRect_of cv (src_gray ?t) ! i)))
                           (pt_y (Rect_br (boundRect_of cv (src_gray ?t) ! i)))
                           (boundRect_of cv (src_gray ?t) ! j)) \<and>
                     suit s' = suit ?t))))"
    by blast
  from f have "Extractor_extract cv input s =
      Inr (\<not> (Mat_empty (rank s') \<or> Mat_empty (suit s')), s')" by (simp add: u)
  moreover note rest [simplified]
  ultimately show ?thesis by blast
qed

subsection \<open>What a call keeps\<close>

text \<open>For every call that returns, of whatever size.\<close>

lemma rankLoop_keeps:
  assumes "rankLoop cv polys rects area i st = Inr st'"
  shows "src (fst st') = src (fst st) \<and> src_gray (fst st') = src_gray (fst st) \<and>
    error (fst st') = error (fst st) \<and> suit (fst st') = suit (fst st)"
  using assms
proof (induction cv polys rects area i st rule: rankLoop.induct)
  case (1 cv polys rects area i st)
  note u = rankLoop.simps [of cv polys rects area i st]
  show ?case
  proof (cases "i < length polys")
    case False
    with "1.prems" show ?thesis by (simp add: u)
  next
    case True
    show ?thesis
    proof (cases "rankReject area (src (fst st)) (rects ! i)")
      case (Inl e)
      with True "1.prems" show ?thesis by (simp add: u)
    next
      case (Inr b)
      show ?thesis
      proof (cases b)
        case True
        then have bT: "b = True" by simp
        from \<open>i < length polys\<close> Inr bT "1.prems"
        have next_: "rankLoop cv polys rects area (Suc i) st = Inr st'" by (simp add: u)
        from "1.IH" [OF \<open>i < length polys\<close> Inr bT next_] show ?thesis .
      next
        case False
        with \<open>i < length polys\<close> Inr "1.prems"
        have f: "rankFound cv polys rects i st = Inr st'" by (simp add: u)
        from rankFound_Inr(4-7) [OF f] show ?thesis by simp
      qed
    qed
  qed
qed

lemma suitLoop_keeps:
  assumes "suitLoop cv polys rects area i st = Inr st'"
  shows "src (fst st') = src (fst st) \<and> src_gray (fst st') = src_gray (fst st) \<and>
    error (fst st') = error (fst st) \<and> rank (fst st') = rank (fst st) \<and>
    rankBrXPosition (fst st') = rankBrXPosition (fst st) \<and>
    rankBrYPosition (fst st') = rankBrYPosition (fst st)"
  using assms
proof (induction cv polys rects area i st rule: suitLoop.induct)
  case (1 cv polys rects area i st)
  note u = suitLoop.simps [of cv polys rects area i st]
  show ?case
  proof (cases "i < length polys")
    case False
    with "1.prems" show ?thesis by (simp add: u)
  next
    case True
    show ?thesis
    proof (cases "suitReject area (fst st) (rects ! i)")
      case (Inl e)
      with True "1.prems" show ?thesis by (simp add: u)
    next
      case (Inr b)
      show ?thesis
      proof (cases b)
        case True
        then have bT: "b = True" by simp
        from \<open>i < length polys\<close> Inr bT "1.prems"
        have next_: "suitLoop cv polys rects area (Suc i) st = Inr st'" by (simp add: u)
        from "1.IH" [OF \<open>i < length polys\<close> Inr bT next_] show ?thesis .
      next
        case False
        with \<open>i < length polys\<close> Inr "1.prems"
        have f: "suitFound cv polys rects i st = Inr st'" by (simp add: u)
        from suitFound_Inr(2-7) [OF f] show ?thesis by simp
      qed
    qed
  qed
qed

lemma rankLoop_frame:
  assumes "rankLoop cv polys rects area i st = Inr st'"
  shows "src (fst st') = src (fst st)" "src_gray (fst st') = src_gray (fst st)"
    "error (fst st') = error (fst st)" "suit (fst st') = suit (fst st)"
  using rankLoop_keeps [OF assms] by simp_all

lemma suitLoop_frame:
  assumes "suitLoop cv polys rects area i st = Inr st'"
  shows "src (fst st') = src (fst st)" "src_gray (fst st') = src_gray (fst st)"
    "error (fst st') = error (fst st)" "rank (fst st') = rank (fst st)"
    "rankBrXPosition (fst st') = rankBrXPosition (fst st)"
    "rankBrYPosition (fst st') = rankBrYPosition (fst st)"
  using suitLoop_keeps [OF assms] by simp_all

lemma findSubImages_Inr:
  assumes "Extractor_findSubImages cv s = Inr s'"
  obtains st1 where
    "rankLoop cv (contours_poly_of cv (src_gray s)) (boundRect_of cv (src_gray s))
       (int32 (cols (src s) * rows (src s))) 0
       (s\<lparr>drawing := Mat_zeros (rows (canny_output cv (src_gray s)))
                                (cols (canny_output cv (src_gray s)))\<rparr>,
        Mat_zeros (rows (src s)) (cols (src s))) = Inr st1"
    and "rankBrYPosition (fst st1) < 0 \<longrightarrow> s' = fst st1"
    and "\<not> rankBrYPosition (fst st1) < 0 \<longrightarrow>
           (\<exists>st2. suitLoop cv (contours_poly_of cv (src_gray s)) (boundRect_of cv (src_gray s))
                    (int32 (cols (src s) * rows (src s))) 0 st1 = Inr st2 \<and> s' = fst st2)"
  using assms
  by (auto simp: Extractor_findSubImages_def Let_def Extractor_showResult_def
      split: sum.splits if_splits)

lemma findSubImages_frame:
  assumes "Extractor_findSubImages cv s = Inr s'"
  shows "src s' = src s" "src_gray s' = src_gray s" "error s' = error s"
proof -
  from assms obtain st1 where
    r: "rankLoop cv (contours_poly_of cv (src_gray s)) (boundRect_of cv (src_gray s))
       (int32 (cols (src s) * rows (src s))) 0
       (s\<lparr>drawing := Mat_zeros (rows (canny_output cv (src_gray s)))
                                (cols (canny_output cv (src_gray s)))\<rparr>,
        Mat_zeros (rows (src s)) (cols (src s))) = Inr st1"
    and a: "rankBrYPosition (fst st1) < 0 \<longrightarrow> s' = fst st1"
    and b: "\<not> rankBrYPosition (fst st1) < 0 \<longrightarrow>
           (\<exists>st2. suitLoop cv (contours_poly_of cv (src_gray s)) (boundRect_of cv (src_gray s))
                    (int32 (cols (src s) * rows (src s))) 0 st1 = Inr st2 \<and> s' = fst st2)"
    by (rule findSubImages_Inr)
  note f1 = rankLoop_frame [OF r]
  show "src s' = src s" "src_gray s' = src_gray s" "error s' = error s"
    using a b f1 suitLoop_frame(1,2,3) [of cv _ _ _ 0 st1]
    by (cases "rankBrYPosition (fst st1) < 0"; fastforce)+
qed

lemma extract_Inr:
  assumes "Extractor_extract cv input s = Inr (ok, s')"
  obtains region where
    "Mat_roi input \<lparr>rect_x = 0, rect_y = 0, rect_width = cdiv (cols input) 4,
                     rect_height = cdiv (2 * rows input) 7\<rparr> = Inr region"
    and "Extractor_findSubImages cv
           (s\<lparr>src := region, src_gray := blur cv (cvtColor cv region) (3, 3)\<rparr>) = Inr s'"
    and "ok = (\<not> (Mat_empty (rank s') \<or> Mat_empty (suit s')))"
  using assms by (auto simp: Extractor_extract_def Let_def split: sum.splits)

subsection \<open>The instance\<close>

lemmas model_defs = Extractor_extract_def Mat_roi_def cdiv_def int32_def new_Extractor_def
  Extractor_findSubImages_def contours_poly_of_def boundRect_of_def canny_output_def
  Mat_zeros_def rankReject_def Rect_tl_def Rect_br_def rankFound_def createImg_def Mat_clone_def
  Mat_copyTo_def drawForWindow_def suitReject_def suitFound_def Mat_empty_def Mat_default_def
  Extractor_showResult_def rankLoop.simps suitLoop.simps
lemmas test_defs = cardImage_def testCv_def scene_def rectA_def rectB_def triA_def
  boundingRect_pts_def drawVertices_def fresh_def boxA_def boxB_def boxPoly_def manyBoxes_def

lemma ratio_nonempty:
  assumes "1 \<le> cdiv (rect_height c) (rect_width c)"
  shows "rect_width c \<noteq> 0" "rect_height c \<noteq> 0"
  using assms by (auto simp: cdiv_def)

text \<open>A card of 490 rows and 400 columns has the region of 140 rows and 100 columns. The
  eight boxes of \<open>manyBoxes\<close>, in the order of the list: five that the rank filter
  rejects, one for each of its tests (area, quotient above 4, quotient below 1, \<open>x\<close>,
  \<open>y\<close>), then the rank, whose bottom-right \<open>y\<close> is exactly \<open>3 * 140 / 4 = 105\<close>; and for
  the suit filter with the corner (40, 105) of that rank seven rejected boxes and the
  suit at index 7.\<close>

lemma card_region:
  "Mat_roi (cardImage 490 400 k)
     \<lparr>rect_x = 0, rect_y = 0, rect_width = cdiv (cols (cardImage 490 400 k)) 4,
       rect_height = cdiv (2 * rows (cardImage 490 400 k)) 7\<rparr> = Inr (cardImage 140 100 k)"
  by (simp add: Mat_roi_def cardImage_def cdiv_def)

lemma card_region_fits: "region_fits (cardImage 140 100 k)"
  by (simp add: region_fits_def cardImage_def)

lemma scene_boxes:
  "boundRect_of testCv (blur testCv (cvtColor testCv (cardImage 140 100 5)) (3, 3)) = manyBoxes"
  "boundRect_of testCv (blur testCv (cvtColor testCv (cardImage 140 100 4)) (3, 3)) = [boxB]"
  "boundRect_of testCv (blur testCv (cvtColor testCv (cardImage 140 100 3)) (3, 3)) = [boxA]"
  by (simp_all add: model_defs test_defs Let_def)

lemma boxes_in_region:
  "list_all (box_in (cardImage 140 100 k)) manyBoxes"
  "list_all (box_in (cardImage 140 100 k)) [boxA]"
  "list_all (box_in (cardImage 140 100 k)) [boxB]"
  by (simp_all add: box_in_def cardImage_def manyBoxes_def boxA_def boxB_def)

lemma manyBoxes_rank: "first_at (rank_filter (100 * 140) 100 140) manyBoxes 5"
  by (simp add: first_at_def manyBoxes_def rank_filter_def cdiv_def Rect_br_def int32_def
      numeral_eq_Suc All_less_Suc)

lemma manyBoxes_suit: "first_at (suit_filter (100 * 140) 100 5 40 105) manyBoxes 7"
  by (simp add: first_at_def manyBoxes_def suit_filter_def cdiv_def Rect_br_def int32_def
      numeral_eq_Suc All_less_Suc)

lemma manyBoxes_tests:
  "rect_height (manyBoxes ! 0) * rect_width (manyBoxes ! 0) < cdiv (100 * 140) 10"
  "cdiv (rect_height (manyBoxes ! 1)) (rect_width (manyBoxes ! 1)) > 4"
  "cdiv (rect_height (manyBoxes ! 2)) (rect_width (manyBoxes ! 2)) < 1"
  "pt_x (Rect_br (manyBoxes ! 3)) > cdiv (3 * 100) 4"
  "pt_y (Rect_br (manyBoxes ! 4)) = cdiv (3 * 140) 4 + 5"
  "pt_y (Rect_br (manyBoxes ! 5)) = cdiv (3 * 140) 4"
  "pt_x (Rect_br (manyBoxes ! 5)) = 40" "pt_y (Rect_br (manyBoxes ! 5)) = 105"
  by (simp_all add: manyBoxes_def cdiv_def Rect_br_def int32_def)

lemma manyBoxes_suit_tests:
  "rect_height (manyBoxes ! 0) * rect_width (manyBoxes ! 0) < cdiv (100 * 140) 25"
  "pt_y (Rect_br (manyBoxes ! 4)) = 105 + 5"
  "pt_x (Rect_br (manyBoxes ! 6)) \<ge> 40 + cdiv 100 6"
  by (simp_all add: manyBoxes_def cdiv_def Rect_br_def int32_def)

text \<open>Beyond these sizes the product of line 83 wraps: a region of 46341 by 46341 has
  the area \<open>-2147479015\<close> for the code, a tenth of it is negative, and the rectangles A
  and B, far too small for the rank filter of the specification, are selected.\<close>

lemma wide_region_area_wraps:
  "int32 (46341 * 46341) = - 2147479015 \<and>
   (case Extractor_extract testCv (cardImage 162194 185364 1) fresh of
      Inl e \<Rightarrow> False
    | Inr (ok, s') \<Rightarrow>
        rows (src s') = 46341 \<and> cols (src s') = 46341 \<and>
        boundRect_of testCv (src_gray s') = [boxA, boxB] \<and> ok \<and>
        Mat_roi (src s') boxA = Inr (rank s') \<and> Mat_roi (src s') boxB = Inr (suit s'))"
  by (simp add: model_defs test_defs Let_def masked_same)

section \<open>The rank filter\<close>

text \<open>C1. Rank selection. For an input whose region fits in 32-bit arithmetic and whose
  contours have their bounding boxes in the region, \<open>extract\<close> returns; \<open>src\<close> is the
  region cut from the input and \<open>src_gray\<close> its blurred grey image, and with the
  bounding boxes of the contours in the order the library gave them: the first box that
  passes the rank filter of the specification (area at least a tenth of the region's,
  truncated height by width between 1 and 4, bottom-right corner at or before three
  quarters of the region's width and of its height), after any number of boxes that do
  not, is the one whose corner is recorded in \<open>rankBrXPosition\<close> and \<open>rankBrYPosition\<close>
  and whose box is cut out as \<open>rank\<close>; when no box passes, the three fields stay as
  they were. The test of the code on a box is the negation of that filter. Both
  position bounds are inclusive: a box that passes the other tests is accepted by the
  code's test when its bottom-right \<open>y\<close> is exactly \<open>3 * rows / 4\<close> and rejected one
  pixel beyond.\<close>

theorem rank_selection:
  assumes "Mat_roi input \<lparr>rect_x = 0, rect_y = 0, rect_width = cdiv (cols input) 4,
                     rect_height = cdiv (2 * rows input) 7\<rparr> = Inr region"
    and "region_fits region"
    and "list_all (box_in region) (boundRect_of cv (blur cv (cvtColor cv region) (3, 3)))"
  shows "\<exists>ok s'. Extractor_extract cv input s = Inr (ok, s') \<and>
     src s' = region \<and> src_gray s' = blur cv (cvtColor cv region) (3, 3) \<and>
     (\<forall>i. first_at (rank_filter (cols region * rows region) (cols region) (rows region))
             (boundRect_of cv (blur cv (cvtColor cv region) (3, 3))) i \<longrightarrow>
          Mat_roi region (boundRect_of cv (blur cv (cvtColor cv region) (3, 3)) ! i) =
            Inr (rank s') \<and>
          rankBrXPosition s' =
            pt_x (Rect_br (boundRect_of cv (blur cv (cvtColor cv region) (3, 3)) ! i)) \<and>
          rankBrYPosition s' =
            pt_y (Rect_br (boundRect_of cv (blur cv (cvtColor cv region) (3, 3)) ! i))) \<and>
     ((\<forall>j<length (boundRect_of cv (blur cv (cvtColor cv region) (3, 3))).
          \<not> rank_filter (cols region * rows region) (cols region) (rows region)
              (boundRect_of cv (blur cv (cvtColor cv region) (3, 3)) ! j)) \<longrightarrow>
      rank s' = rank s \<and> rankBrXPosition s' = rankBrXPosition s \<and>
      rankBrYPosition s' = rankBrYPosition s) \<and>
     (\<forall>c. box_in region c \<longrightarrow>
          rankReject (int32 (cols region * rows region)) region c =
            Inr (\<not> rank_filter (cols region * rows region) (cols region) (rows region) c)) \<and>
     (\<forall>c. box_in region c \<and>
          cdiv (cols region * rows region) 10 \<le> rect_height c * rect_width c \<and>
          1 \<le> cdiv (rect_height c) (rect_width c) \<and> cdiv (rect_height c) (rect_width c) \<le> 4 \<and>
          pt_x (Rect_br c) \<le> cdiv (3 * cols region) 4 \<longrightarrow>
          (pt_y (Rect_br c) = cdiv (3 * rows region) 4 \<longrightarrow>
             rankReject (int32 (cols region * rows region)) region c = Inr False) \<and>
          (pt_y (Rect_br c) = cdiv (3 * rows region) 4 + 1 \<longrightarrow>
             rankReject (int32 (cols region * rows region)) region c = Inr True))"
proof -
  let ?B = "boundRect_of cv (blur cv (cvtColor cv region) (3, 3))"
  let ?RF = "rank_filter (cols region * rows region) (cols region) (rows region)"
  let ?A = "int32 (cols region * rows region)"
  from extract_cases [OF assms, of s] obtain ok s' where
    e: "Extractor_extract cv input s = Inr (ok, s')"
    and f: "src s' = region" "src_gray s' = blur cv (cvtColor cv region) (3, 3)"
    and c: "((\<forall>j<length ?B. \<not> ?RF (?B ! j)) \<and>
       rank s' = rank s \<and> rankBrXPosition s' = rankBrXPosition s \<and>
       rankBrYPosition s' = rankBrYPosition s)
      \<or> (\<exists>i. first_at ?RF ?B i \<and> Mat_roi region (?B ! i) = Inr (rank s') \<and>
             rankBrXPosition s' = pt_x (Rect_br (?B ! i)) \<and>
             rankBrYPosition s' = pt_y (Rect_br (?B ! i)))"
    by blast
  have first: "Mat_roi region (?B ! i) = Inr (rank s') \<and>
      rankBrXPosition s' = pt_x (Rect_br (?B ! i)) \<and>
      rankBrYPosition s' = pt_y (Rect_br (?B ! i))" if i: "first_at ?RF ?B i" for i
    using c
  proof
    assume "(\<forall>j<length ?B. \<not> ?RF (?B ! j)) \<and>
       rank s' = rank s \<and> rankBrXPosition s' = rankBrXPosition s \<and>
       rankBrYPosition s' = rankBrYPosition s"
    with i show ?thesis by (auto simp: first_at_def)
  next
    assume "\<exists>i. first_at ?RF ?B i \<and> Mat_roi region (?B ! i) = Inr (rank s') \<and>
             rankBrXPosition s' = pt_x (Rect_br (?B ! i)) \<and>
             rankBrYPosition s' = pt_y (Rect_br (?B ! i))"
    then obtain k where k: "first_at ?RF ?B k" and r: "Mat_roi region (?B ! k) = Inr (rank s') \<and>
             rankBrXPosition s' = pt_x (Rect_br (?B ! k)) \<and>
             rankBrYPosition s' = pt_y (Rect_br (?B ! k))" by blast
    from first_at_unique [OF i k] r show ?thesis by simp
  qed
  have none: "rank s' = rank s \<and> rankBrXPosition s' = rankBrXPosition s \<and>
      rankBrYPosition s' = rankBrYPosition s" if "\<forall>j<length ?B. \<not> ?RF (?B ! j)"
    using c that by (auto simp: first_at_def)
  have test: "rankReject ?A region c = Inr (\<not> ?RF c)" if "box_in region c" for c
    using assms(2) that by (rule rankReject_fits)
  have bound: "(pt_y (Rect_br c) = cdiv (3 * rows region) 4 \<longrightarrow>
             rankReject ?A region c = Inr False) \<and>
          (pt_y (Rect_br c) = cdiv (3 * rows region) 4 + 1 \<longrightarrow>
             rankReject ?A region c = Inr True)"
    if "box_in region c \<and>
          cdiv (cols region * rows region) 10 \<le> rect_height c * rect_width c \<and>
          1 \<le> cdiv (rect_height c) (rect_width c) \<and> cdiv (rect_height c) (rect_width c) \<le> 4 \<and>
          pt_x (Rect_br c) \<le> cdiv (3 * cols region) 4" for c
    using that test [of c] by (simp add: rank_filter_def)
  from e f first none test bound show ?thesis by blast
qed

text \<open>On the card with the eight boxes: the loop passes over five boxes, one rejected
  by each test, and selects the sixth, whose bottom-right \<open>y\<close> is on the bound.\<close>

theorem rank_selection_witness:
  "first_at (rank_filter (100 * 140) 100 140) manyBoxes 5 \<and>
   rect_height (manyBoxes ! 0) * rect_width (manyBoxes ! 0) < cdiv (100 * 140) 10 \<and>
   cdiv (rect_height (manyBoxes ! 1)) (rect_width (manyBoxes ! 1)) > 4 \<and>
   cdiv (rect_height (manyBoxes ! 2)) (rect_width (manyBoxes ! 2)) < 1 \<and>
   pt_x (Rect_br (manyBoxes ! 3)) > cdiv (3 * 100) 4 \<and>
   pt_y (Rect_br (manyBoxes ! 4)) > cdiv (3 * 140) 4 \<and>
   pt_y (Rect_br (manyBoxes ! 5)) = cdiv (3 * 140) 4 \<and>
   (\<exists>ok s'. Extractor_extract testCv (cardImage 490 400 5) fresh = Inr (ok, s') \<and>
      src s' = cardImage 140 100 5 \<and>
      boundRect_of testCv (src_gray s') = manyBoxes \<and>
      Mat_roi (cardImage 140 100 5) (manyBoxes ! 5) = Inr (rank s') \<and>
      rankBrXPosition s' = 40 \<and> rankBrYPosition s' = 105)"
proof -
  have boxes: "list_all (box_in (cardImage 140 100 5))
      (boundRect_of testCv (blur testCv (cvtColor testCv (cardImage 140 100 5)) (3, 3)))"
    by (simp add: scene_boxes boxes_in_region)
  from rank_selection [OF card_region card_region_fits boxes, of fresh]
  obtain ok s' where e: "Extractor_extract testCv (cardImage 490 400 5) fresh = Inr (ok, s')"
    and f: "src s' = cardImage 140 100 5"
      "src_gray s' = blur testCv (cvtColor testCv (cardImage 140 100 5)) (3, 3)"
    and sel: "\<forall>i. first_at (rank_filter (cols (cardImage 140 100 5) * rows (cardImage 140 100 5))
                 (cols (cardImage 140 100 5)) (rows (cardImage 140 100 5)))
             (boundRect_of testCv (blur testCv (cvtColor testCv (cardImage 140 100 5)) (3, 3))) i \<longrightarrow>
          Mat_roi (cardImage 140 100 5)
            (boundRect_of testCv (blur testCv (cvtColor testCv (cardImage 140 100 5)) (3, 3)) ! i) =
            Inr (rank s') \<and>
          rankBrXPosition s' =
            pt_x (Rect_br (boundRect_of testCv (blur testCv (cvtColor testCv (cardImage 140 100 5)) (3, 3)) ! i)) \<and>
          rankBrYPosition s' =
            pt_y (Rect_br (boundRect_of testCv (blur testCv (cvtColor testCv (cardImage 140 100 5)) (3, 3)) ! i))"
    by blast
  have dims: "cols (cardImage 140 100 5) = 100" "rows (cardImage 140 100 5) = 140"
    by (simp_all add: cardImage_def)
  from sel [rule_format, of 5] manyBoxes_rank
  have "Mat_roi (cardImage 140 100 5) (manyBoxes ! 5) = Inr (rank s') \<and>
      rankBrXPosition s' = 40 \<and> rankBrYPosition s' = 105"
    by (simp add: scene_boxes dims manyBoxes_tests(7,8))
  with e f manyBoxes_rank manyBoxes_tests(1-6) show ?thesis
    by (auto simp: scene_boxes)
qed

section \<open>The suit filter\<close>

text \<open>C2. Suit selection. For an input whose region fits in 32-bit arithmetic and whose
  contours have their bounding boxes in the region, and an \<open>error\<close> of at most \<open>2^30\<close>
  in absolute value, \<open>extract\<close> returns. When the rank loop selected the box at index
  \<open>i\<close> (the first that passes the rank filter), the corner recorded is the bottom-right
  corner \<open>(rankX, rankY)\<close> of that box, and the suit loop goes through the same boxes in
  the same order: the first box that passes the suit filter of the specification for
  that corner (area at least a twenty-fifth of the region's, truncated height by width
  between 1 and 4, bottom-right \<open>y\<close> strictly greater than \<open>rankY + error\<close>, bottom-right
  \<open>x\<close> strictly less than \<open>rankX\<close> plus a sixth of the region's width), after any number
  of boxes that do not, is cut out as \<open>suit\<close>, and the call reports success; when no
  box passes, \<open>suit\<close> stays as it was. The test of the code on a box is the negation of
  that filter.\<close>

theorem suit_selection:
  assumes "Mat_roi input \<lparr>rect_x = 0, rect_y = 0, rect_width = cdiv (cols input) 4,
                     rect_height = cdiv (2 * rows input) 7\<rparr> = Inr region"
    and "region_fits region"
    and "list_all (box_in region) (boundRect_of cv (blur cv (cvtColor cv region) (3, 3)))"
    and "\<bar>error s\<bar> \<le> 1073741824"
  shows "\<exists>ok s'. Extractor_extract cv input s = Inr (ok, s') \<and>
     (\<forall>i. first_at (rank_filter (cols region * rows region) (cols region) (rows region))
             (boundRect_of cv (blur cv (cvtColor cv region) (3, 3))) i \<longrightarrow>
          rankBrXPosition s' =
            pt_x (Rect_br (boundRect_of cv (blur cv (cvtColor cv region) (3, 3)) ! i)) \<and>
          rankBrYPosition s' =
            pt_y (Rect_br (boundRect_of cv (blur cv (cvtColor cv region) (3, 3)) ! i)) \<and>
          (\<forall>k. first_at (suit_filter (cols region * rows region) (cols region) (error s)
                          (rankBrXPosition s') (rankBrYPosition s'))
                  (boundRect_of cv (blur cv (cvtColor cv region) (3, 3))) k \<longrightarrow>
               Mat_roi region (boundRect_of cv (blur cv (cvtColor cv region) (3, 3)) ! k) =
                 Inr (suit s') \<and> ok) \<and>
          ((\<forall>j<length (boundRect_of cv (blur cv (cvtColor cv region) (3, 3))).
               \<not> suit_filter (cols region * rows region) (cols region) (error s)
                   (rankBrXPosition s') (rankBrYPosition s')
                   (boundRect_of cv (blur cv (cvtColor cv region) (3, 3)) ! j)) \<longrightarrow>
           suit s' = suit s) \<and>
          (\<forall>c. box_in region c \<longrightarrow>
               suitReject (int32 (cols region * rows region)) s' c =
                 Inr (\<not> suit_filter (cols region * rows region) (cols region) (error s)
                          (rankBrXPosition s') (rankBrYPosition s') c)))"
proof -
  let ?B = "boundRect_of cv (blur cv (cvtColor cv region) (3, 3))"
  let ?RF = "rank_filter (cols region * rows region) (cols region) (rows region)"
  let ?SF = "\<lambda>x y. suit_filter (cols region * rows region) (cols region) (error s) x y"
  from extract_cases [OF assms(1-3), of s] assms(4) obtain ok s' where
    e: "Extractor_extract cv input s = Inr (ok, s')"
    and okv: "ok = (\<not> (Mat_empty (rank s') \<or> Mat_empty (suit s')))"
    and f: "src s' = region" "error s' = error s"
    and c: "(\<forall>j<length ?B. \<not> ?RF (?B ! j))
      \<or> (\<exists>i. first_at ?RF ?B i \<and> Mat_roi region (?B ! i) = Inr (rank s') \<and>
             rankBrXPosition s' = pt_x (Rect_br (?B ! i)) \<and>
             rankBrYPosition s' = pt_y (Rect_br (?B ! i)) \<and>
             ((\<exists>k. first_at (?SF (pt_x (Rect_br (?B ! i))) (pt_y (Rect_br (?B ! i)))) ?B k \<and>
                   Mat_roi region (?B ! k) = Inr (suit s'))
              \<or> ((\<forall>j<length ?B. \<not> ?SF (pt_x (Rect_br (?B ! i))) (pt_y (Rect_br (?B ! i)))
                                     (?B ! j)) \<and>
                  suit s' = suit s)))"
    by blast
  have main: "rankBrXPosition s' = pt_x (Rect_br (?B ! i)) \<and>
      rankBrYPosition s' = pt_y (Rect_br (?B ! i)) \<and>
      (\<forall>k. first_at (?SF (rankBrXPosition s') (rankBrYPosition s')) ?B k \<longrightarrow>
           Mat_roi region (?B ! k) = Inr (suit s') \<and> ok) \<and>
      ((\<forall>j<length ?B. \<not> ?SF (rankBrXPosition s') (rankBrYPosition s') (?B ! j)) \<longrightarrow>
       suit s' = suit s) \<and>
      (\<forall>c. box_in region c \<longrightarrow>
           suitReject (int32 (cols region * rows region)) s' c =
             Inr (\<not> ?SF (rankBrXPosition s') (rankBrYPosition s') c))"
    if i: "first_at ?RF ?B i" for i
  proof -
    from c i obtain i' where i': "first_at ?RF ?B i'"
      and roi: "Mat_roi region (?B ! i') = Inr (rank s')"
      and xy: "rankBrXPosition s' = pt_x (Rect_br (?B ! i'))"
        "rankBrYPosition s' = pt_y (Rect_br (?B ! i'))"
      and st: "(\<exists>k. first_at (?SF (pt_x (Rect_br (?B ! i'))) (pt_y (Rect_br (?B ! i')))) ?B k \<and>
                   Mat_roi region (?B ! k) = Inr (suit s'))
              \<or> ((\<forall>j<length ?B. \<not> ?SF (pt_x (Rect_br (?B ! i'))) (pt_y (Rect_br (?B ! i')))
                                     (?B ! j)) \<and>
                  suit s' = suit s)"
      by (auto simp: first_at_def)
    have eq: "i' = i" using i i' by (rule first_at_unique)
    from i have rf: "?RF (?B ! i)" and ilen: "i < length ?B" by (simp_all add: first_at_def)
    with assms(3) have bi: "box_in region (?B ! i)" by (simp add: list_all_length)
    have rank_ne: "\<not> Mat_empty (rank s')"
      using Mat_roi_Inr(7) [OF roi] ratio_nonempty [of "?B ! i"] rf eq
      by (simp add: rank_filter_def)
    have found: "Mat_roi region (?B ! k) = Inr (suit s') \<and> ok"
      if k: "first_at (?SF (rankBrXPosition s') (rankBrYPosition s')) ?B k" for k
      using st
    proof
      assume "\<exists>k. first_at (?SF (pt_x (Rect_br (?B ! i'))) (pt_y (Rect_br (?B ! i')))) ?B k \<and>
                   Mat_roi region (?B ! k) = Inr (suit s')"
      then obtain k' where k': "first_at (?SF (rankBrXPosition s') (rankBrYPosition s')) ?B k'"
        and r: "Mat_roi region (?B ! k') = Inr (suit s')" using xy by auto
      have "k' = k" using k k' by (rule first_at_unique)
      with r have r': "Mat_roi region (?B ! k) = Inr (suit s')" by simp
      from k have "1 \<le> cdiv (rect_height (?B ! k)) (rect_width (?B ! k))"
        by (simp add: first_at_def suit_filter_def)
      with Mat_roi_Inr(7) [OF r'] ratio_nonempty [of "?B ! k"]
      have "\<not> Mat_empty (suit s')" by simp
      with r' rank_ne okv show ?thesis by simp
    next
      assume "(\<forall>j<length ?B. \<not> ?SF (pt_x (Rect_br (?B ! i'))) (pt_y (Rect_br (?B ! i')))
                                     (?B ! j)) \<and> suit s' = suit s"
      with k xy show ?thesis by (auto simp: first_at_def)
    qed
    have none: "suit s' = suit s"
      if "\<forall>j<length ?B. \<not> ?SF (rankBrXPosition s') (rankBrYPosition s') (?B ! j)"
      using st that xy by (auto simp: first_at_def)
    have test: "suitReject (int32 (cols region * rows region)) s' c =
             Inr (\<not> ?SF (rankBrXPosition s') (rankBrYPosition s') c)"
      if cb: "box_in region c" for c
    proof -
      note bf = box_in_fits(1,2) [OF assms(2) bi]
      from bi have nn: "0 \<le> rankBrXPosition s'" "rankBrXPosition s' \<le> cols (src s')"
        "0 \<le> rankBrYPosition s'" "rankBrYPosition s' \<le> rows (src s')"
        using xy eq f by (simp_all add: bf box_in_def)
      from suitReject_fits [of s' c] assms(2,4) cb nn f show ?thesis by simp
    qed
    from xy eq found none test show ?thesis by blast
  qed
  from e main show ?thesis by blast
qed

text \<open>On the card with the eight boxes the rank is the box at index 5, with corner
  (40, 105). The suit loop passes over seven boxes: the first three fail on the area
  and on the quotient, the next three on \<open>y\<close> (one of them has \<open>y\<close> exactly \<open>105 + 5\<close>,
  which is not strictly above it; the last is the rank itself), the seventh on \<open>x\<close>;
  the box at index 7 is selected.\<close>

theorem suit_selection_witness:
  "\<bar>error fresh\<bar> \<le> 1073741824 \<and>
   first_at (rank_filter (100 * 140) 100 140) manyBoxes 5 \<and>
   first_at (suit_filter (100 * 140) 100 5 40 105) manyBoxes 7 \<and>
   rect_height (manyBoxes ! 0) * rect_width (manyBoxes ! 0) < cdiv (100 * 140) 25 \<and>
   cdiv (rect_height (manyBoxes ! 1)) (rect_width (manyBoxes ! 1)) > 4 \<and>
   cdiv (rect_height (manyBoxes ! 2)) (rect_width (manyBoxes ! 2)) < 1 \<and>
   pt_y (Rect_br (manyBoxes ! 4)) = 105 + 5 \<and>
   pt_x (Rect_br (manyBoxes ! 6)) \<ge> 40 + cdiv 100 6 \<and>
   (\<exists>s'. Extractor_extract testCv (cardImage 490 400 5) fresh = Inr (True, s') \<and>
      rankBrXPosition s' = 40 \<and> rankBrYPosition s' = 105 \<and>
      Mat_roi (cardImage 140 100 5) (manyBoxes ! 7) = Inr (suit s'))"
proof -
  have boxes: "list_all (box_in (cardImage 140 100 5))
      (boundRect_of testCv (blur testCv (cvtColor testCv (cardImage 140 100 5)) (3, 3)))"
    by (simp add: scene_boxes boxes_in_region)
  have err: "\<bar>error fresh\<bar> \<le> 1073741824" and e5: "error fresh = 5"
    by (simp_all add: fresh_def new_Extractor_def)
  have dims: "cols (cardImage 140 100 5) = 100" "rows (cardImage 140 100 5) = 140"
    by (simp_all add: cardImage_def)
  from suit_selection [OF card_region card_region_fits boxes err]
  obtain ok s' where e: "Extractor_extract testCv (cardImage 490 400 5) fresh = Inr (ok, s')"
    and sel: "\<forall>i. first_at (rank_filter (100 * 140) 100 140) manyBoxes i \<longrightarrow>
          rankBrXPosition s' = pt_x (Rect_br (manyBoxes ! i)) \<and>
          rankBrYPosition s' = pt_y (Rect_br (manyBoxes ! i)) \<and>
          (\<forall>k. first_at (suit_filter (100 * 140) 100 5
                          (rankBrXPosition s') (rankBrYPosition s')) manyBoxes k \<longrightarrow>
               Mat_roi (cardImage 140 100 5) (manyBoxes ! k) = Inr (suit s') \<and> ok)"
    unfolding scene_boxes dims e5 by blast
  from sel [rule_format, OF manyBoxes_rank]
  have xy: "rankBrXPosition s' = 40" "rankBrYPosition s' = 105"
    and k: "\<forall>k. first_at (suit_filter (100 * 140) 100 5 40 105) manyBoxes k \<longrightarrow>
               Mat_roi (cardImage 140 100 5) (manyBoxes ! k) = Inr (suit s') \<and> ok"
    by (simp_all add: manyBoxes_tests(7,8))
  from k [rule_format, OF manyBoxes_suit] e xy err manyBoxes_rank manyBoxes_suit
    manyBoxes_suit_tests manyBoxes_tests(2,3)
  show ?thesis by auto
qed

section \<open>A call with no rank\<close>

text \<open>C3. Fail-fast on a missing rank: when no contour passes the rank filter, the suit
  filter is not run and \<open>extract\<close> returns failure. The test after the rank loop is
  \<open>rankBrYPosition < 0\<close>, and the field is never set back: once a call has recorded a
  rank, a later call on the same object whose contours hold no rank goes on to the suit
  filter with the old corner. Below, the first call sees rectangle A alone (rank found,
  no suit, failure, corner (40, 70) recorded); the second sees rectangle B alone, which
  does not pass the rank filter, and yet B is examined by the suit filter, cut out as
  \<open>suit\<close>, and the call reports success. A new object fails on the same card.\<close>

theorem stale_rank_runs_suit_filter:
  "case Extractor_extract testCv (cardImage 490 400 3) fresh of
     Inl e \<Rightarrow> False
   | Inr (ok1, s1) \<Rightarrow>
       (case Extractor_extract testCv (cardImage 490 400 4) s1 of
          Inl e \<Rightarrow> False
        | Inr (ok2, s2) \<Rightarrow>
            (case Extractor_extract testCv (cardImage 490 400 4) fresh of
               Inl e \<Rightarrow> False
             | Inr (ok3, s3) \<Rightarrow>
                 boundRect_of testCv (src_gray s2) = [boxB] \<and>
                 \<not> rank_filter (cols (src s2) * rows (src s2)) (cols (src s2)) (rows (src s2)) boxB \<and>
                 rankBrYPosition s1 = 70 \<and> Mat_empty (suit s1) \<and>
                 Mat_roi (src s2) boxB = Inr (suit s2) \<and> ok2 \<and>
                 \<not> ok3 \<and> Mat_empty (suit s3)))"
  by (simp add: model_defs test_defs Let_def rank_filter_def masked_same)

section \<open>Calls on the same object\<close>

text \<open>C4. Independence of calls: no call depends on an earlier one. The fields \<open>rank\<close>,
  \<open>suit\<close>, \<open>rankBrXPosition\<close> and \<open>rankBrYPosition\<close> are not reset by \<open>extract\<close>. Below,
  a blank card (no contour at all) makes a new object fail, and makes an object that
  has extracted the rectangles A and B before succeed, with the sub-images of the
  earlier card.\<close>

theorem call_depends_on_earlier_call:
  "case Extractor_extract testCv (cardImage 490 400 1) fresh of
     Inl e \<Rightarrow> False
   | Inr (ok1, s1) \<Rightarrow>
       (case Extractor_extract testCv (cardImage 490 400 0) s1 of
          Inl e \<Rightarrow> False
        | Inr (ok2, s2) \<Rightarrow>
            (case Extractor_extract testCv (cardImage 490 400 0) fresh of
               Inl e \<Rightarrow> False
             | Inr (ok3, s3) \<Rightarrow>
                 boundRect_of testCv (src_gray s2) = [] \<and> ok2 \<and> \<not> ok3 \<and>
                 rank s2 = rank s1 \<and> suit s2 = suit s1 \<and> rankBrYPosition s2 = 70 \<and>
                 Mat_empty (rank s3) \<and> Mat_empty (suit s3)))"
  by (simp add: model_defs test_defs Let_def masked_same)

section \<open>The thresholds of the edge detection\<close>

text \<open>C5. The edge detection and its thresholds, which the specification has computed
  from the grey image. For every grey image the two thresholds handed to \<open>Canny\<close> are
  the enumerator \<^verbatim>\<open>THRESH_OTSU\<close>, the number 8, and the contours are those of that edge
  map: the thresholds are the same for every image.\<close>

theorem canny_thresholds_fixed:
  "canny_output cv gray = Canny cv gray 8 8 \<and>
   contours_poly_of cv gray =
     map (\<lambda>c. approxPolyDP cv c 3 True) (findContours cv (Canny cv gray 8 8))"
  by (simp add: contours_poly_of_def canny_output_def THRESH_OTSU_def)

section \<open>Partial results\<close>

text \<open>C6, as the specification has it: a failing call produces neither sub-image. It
  does not hold: on the card with rectangle A alone the call fails and the \<open>rank\<close> field,
  empty before, holds the box of A cut from the region.\<close>

theorem failing_call_leaves_rank:
  "case Extractor_extract testCv (cardImage 490 400 3) fresh of
     Inl e \<Rightarrow> False
   | Inr (ok, s') \<Rightarrow>
       boundRect_of testCv (src_gray s') = [boxA] \<and> \<not> ok \<and>
       Mat_empty (rank fresh) \<and> \<not> Mat_empty (rank s') \<and>
       Mat_roi (src s') boxA = Inr (rank s') \<and> Mat_empty (suit s')"
  by (simp add: model_defs test_defs Let_def masked_same)

text \<open>C6, amended. For an input whose region fits in 32-bit arithmetic and whose
  contours have their bounding boxes in the region, and an \<open>error\<close> of at most \<open>2^30\<close>
  in absolute value, \<open>extract\<close> returns, and: if no box passes the rank filter and no
  rank was recorded before (\<open>rankBrYPosition < 0\<close>, as on a new object), the fields
  \<open>rank\<close> and \<open>suit\<close> are as they were and the result is failure unless both were
  filled before; if a rank is selected and no box passes the suit filter for its corner,
  the \<open>suit\<close> field is as it was, the \<open>rank\<close> field holds the newly cut (non-empty)
  rank sub-image, and the result is failure when \<open>suit\<close> was empty.\<close>

theorem partial_results_on_failure:
  assumes "Mat_roi input \<lparr>rect_x = 0, rect_y = 0, rect_width = cdiv (cols input) 4,
                     rect_height = cdiv (2 * rows input) 7\<rparr> = Inr region"
    and "region_fits region"
    and "list_all (box_in region) (boundRect_of cv (blur cv (cvtColor cv region) (3, 3)))"
    and "\<bar>error s\<bar> \<le> 1073741824"
  shows "\<exists>ok s'. Extractor_extract cv input s = Inr (ok, s') \<and>
    ((\<forall>j<length (boundRect_of cv (blur cv (cvtColor cv region) (3, 3))).
         \<not> rank_filter (cols region * rows region) (cols region) (rows region)
             (boundRect_of cv (blur cv (cvtColor cv region) (3, 3)) ! j)) \<and>
     rankBrYPosition s < 0 \<longrightarrow>
     rank s' = rank s \<and> suit s' = suit s \<and>
     ok = (\<not> (Mat_empty (rank s) \<or> Mat_empty (suit s)))) \<and>
    (\<forall>i. first_at (rank_filter (cols region * rows region) (cols region) (rows region))
            (boundRect_of cv (blur cv (cvtColor cv region) (3, 3))) i \<and>
         (\<forall>k<length (boundRect_of cv (blur cv (cvtColor cv region) (3, 3))).
            \<not> suit_filter (cols region * rows region) (cols region) (error s)
                (pt_x (Rect_br (boundRect_of cv (blur cv (cvtColor cv region) (3, 3)) ! i)))
                (pt_y (Rect_br (boundRect_of cv (blur cv (cvtColor cv region) (3, 3)) ! i)))
                (boundRect_of cv (blur cv (cvtColor cv region) (3, 3)) ! k)) \<longrightarrow>
         Mat_roi region (boundRect_of cv (blur cv (cvtColor cv region) (3, 3)) ! i) =
           Inr (rank s') \<and>
         \<not> Mat_empty (rank s') \<and> suit s' = suit s \<and> ok = (\<not> Mat_empty (suit s)))"
proof -
  let ?B = "boundRect_of cv (blur cv (cvtColor cv region) (3, 3))"
  let ?RF = "rank_filter (cols region * rows region) (cols region) (rows region)"
  let ?SF = "\<lambda>x y. suit_filter (cols region * rows region) (cols region) (error s) x y"
  from extract_cases [OF assms(1-3), of s] assms(4) obtain ok s' where
    e: "Extractor_extract cv input s = Inr (ok, s')"
    and okv: "ok = (\<not> (Mat_empty (rank s') \<or> Mat_empty (suit s')))"
    and c: "((\<forall>j<length ?B. \<not> ?RF (?B ! j)) \<and> rank s' = rank s \<and>
             (rankBrYPosition s < 0 \<longrightarrow> suit s' = suit s))
      \<or> (\<exists>i. first_at ?RF ?B i \<and> Mat_roi region (?B ! i) = Inr (rank s') \<and>
             ((\<exists>k. first_at (?SF (pt_x (Rect_br (?B ! i))) (pt_y (Rect_br (?B ! i)))) ?B k)
              \<or> ((\<forall>j<length ?B. \<not> ?SF (pt_x (Rect_br (?B ! i))) (pt_y (Rect_br (?B ! i)))
                                     (?B ! j)) \<and>
                  suit s' = suit s)))"
    by blast
  have none: "rank s' = rank s \<and> suit s' = suit s \<and>
      ok = (\<not> (Mat_empty (rank s) \<or> Mat_empty (suit s)))"
    if n: "\<forall>j<length ?B. \<not> ?RF (?B ! j)" and neg: "rankBrYPosition s < 0"
  proof -
    from c n neg have "rank s' = rank s \<and> suit s' = suit s" by (auto simp: first_at_def)
    with okv show ?thesis by simp
  qed
  have some: "Mat_roi region (?B ! i) = Inr (rank s') \<and>
        \<not> Mat_empty (rank s') \<and> suit s' = suit s \<and> ok = (\<not> Mat_empty (suit s))"
    if i: "first_at ?RF ?B i"
      and k: "\<forall>k<length ?B. \<not> ?SF (pt_x (Rect_br (?B ! i))) (pt_y (Rect_br (?B ! i))) (?B ! k)"
    for i
  proof -
    from c i obtain i' where i': "first_at ?RF ?B i'"
      and roi': "Mat_roi region (?B ! i') = Inr (rank s')"
      and st: "(\<exists>k. first_at (?SF (pt_x (Rect_br (?B ! i'))) (pt_y (Rect_br (?B ! i')))) ?B k)
              \<or> ((\<forall>j<length ?B. \<not> ?SF (pt_x (Rect_br (?B ! i'))) (pt_y (Rect_br (?B ! i')))
                                     (?B ! j)) \<and>
                  suit s' = suit s)"
      by (auto simp: first_at_def)
    have eq: "i' = i" using i i' by (rule first_at_unique)
    from roi' eq have roi: "Mat_roi region (?B ! i) = Inr (rank s')" by simp
    from i have rf: "?RF (?B ! i)" by (simp add: first_at_def)
    have rank_ne: "\<not> Mat_empty (rank s')"
      using Mat_roi_Inr(7) [OF roi] ratio_nonempty [of "?B ! i"] rf
      by (simp add: rank_filter_def)
    from st k eq have "suit s' = suit s" by (auto simp: first_at_def)
    with roi rank_ne okv show ?thesis by simp
  qed
  from e none some show ?thesis by blast
qed

text \<open>Both cases on a new object: the card with B alone (no rank), and the card with A
  alone (rank A, no suit).\<close>

theorem partial_results_on_failure_witness:
  "\<bar>error fresh\<bar> \<le> 1073741824 \<and>
   (\<exists>s'. Extractor_extract testCv (cardImage 490 400 4) fresh = Inr (False, s') \<and>
      \<not> rank_filter (100 * 140) 100 140 boxB \<and> rankBrYPosition fresh < 0 \<and>
      rank s' = rank fresh \<and> suit s' = suit fresh) \<and>
   (\<exists>s'. Extractor_extract testCv (cardImage 490 400 3) fresh = Inr (False, s') \<and>
      first_at (rank_filter (100 * 140) 100 140) [boxA] 0 \<and>
      \<not> suit_filter (100 * 140) 100 5 40 70 boxA \<and>
      Mat_roi (cardImage 140 100 3) boxA = Inr (rank s') \<and> \<not> Mat_empty (rank s') \<and>
      suit s' = suit fresh)"
proof -
  have err: "\<bar>error fresh\<bar> \<le> 1073741824" and e5: "error fresh = 5"
    and neg: "rankBrYPosition fresh < 0"
    and em: "Mat_empty (rank fresh)" "Mat_empty (suit fresh)"
    by (simp_all add: fresh_def new_Extractor_def Mat_empty_def Mat_default_def)
  have dims: "cols (cardImage 140 100 k) = 100" "rows (cardImage 140 100 k) = 140" for k
    by (simp_all add: cardImage_def)
  have rb: "\<not> rank_filter (100 * 140) 100 140 boxB"
    by (simp add: rank_filter_def boxB_def cdiv_def Rect_br_def int32_def)
  have rf: "first_at (rank_filter (100 * 140) 100 140) [boxA] 0"
    by (simp add: first_at_def rank_filter_def boxA_def cdiv_def Rect_br_def int32_def)
  have sa: "\<not> suit_filter (100 * 140) 100 5 40 70 boxA"
    by (simp add: suit_filter_def boxA_def cdiv_def Rect_br_def int32_def)
  have brA: "pt_x (Rect_br boxA) = 40" "pt_y (Rect_br boxA) = 70"
    by (simp_all add: boxA_def Rect_br_def int32_def)
  have b4: "list_all (box_in (cardImage 140 100 4))
      (boundRect_of testCv (blur testCv (cvtColor testCv (cardImage 140 100 4)) (3, 3)))"
    using boxes_in_region(3) [of 4] by (simp add: scene_boxes)
  have b3: "list_all (box_in (cardImage 140 100 3))
      (boundRect_of testCv (blur testCv (cvtColor testCv (cardImage 140 100 3)) (3, 3)))"
    using boxes_in_region(2) [of 3] by (simp add: scene_boxes)
  from partial_results_on_failure [OF card_region card_region_fits b4 err]
  obtain ok4 s4 where e4: "Extractor_extract testCv (cardImage 490 400 4) fresh = Inr (ok4, s4)"
    and n4: "(\<forall>j<length [boxB]. \<not> rank_filter (100 * 140) 100 140 ([boxB] ! j)) \<and>
       rankBrYPosition fresh < 0 \<longrightarrow>
       rank s4 = rank fresh \<and> suit s4 = suit fresh \<and>
       ok4 = (\<not> (Mat_empty (rank fresh) \<or> Mat_empty (suit fresh)))"
    unfolding scene_boxes dims by blast
  from n4 rb neg em have p4: "rank s4 = rank fresh" "suit s4 = suit fresh" "\<not> ok4" by simp_all
  from partial_results_on_failure [OF card_region card_region_fits b3 err]
  obtain ok3 s3 where e3: "Extractor_extract testCv (cardImage 490 400 3) fresh = Inr (ok3, s3)"
    and n3: "\<forall>i. first_at (rank_filter (100 * 140) 100 140) [boxA] i \<and>
         (\<forall>k<length [boxA].
            \<not> suit_filter (100 * 140) 100 (error fresh)
                (pt_x (Rect_br ([boxA] ! i))) (pt_y (Rect_br ([boxA] ! i))) ([boxA] ! k)) \<longrightarrow>
         Mat_roi (cardImage 140 100 3) ([boxA] ! i) = Inr (rank s3) \<and>
         \<not> Mat_empty (rank s3) \<and> suit s3 = suit fresh \<and> ok3 = (\<not> Mat_empty (suit fresh))"
    unfolding scene_boxes dims by blast
  from n3 [rule_format, of 0] rf sa brA e5 em
  have p3: "Mat_roi (cardImage 140 100 3) boxA = Inr (rank s3)" "\<not> Mat_empty (rank s3)"
    "suit s3 = suit fresh" "\<not> ok3" by simp_all
  from err e4 p4 rb neg e3 p3 rf sa show ?thesis by auto
qed

section \<open>The content of a sub-image\<close>

text \<open>C7. Content of the sub-image: only the pixels inside the polygon of the contour are
  kept. The masked copy goes onto a clone of the region, which holds every pixel of the
  region already (lemma \<open>createImg_eq\<close>): the sub-image is the whole bounding box. Below
  the rank contour is a triangle with the bounding box (10,10)-(40,70); the pixel
  (10, 10) of the region lies in the box and outside the triangle, the mask is zero
  there, and the pixel is in the rank sub-image, at (0, 0), unchanged.\<close>

theorem sub_image_keeps_pixels_outside_polygon:
  "case Extractor_extract testCv (cardImage 490 400 2) fresh of
     Inl e \<Rightarrow> False
   | Inr (ok, s') \<Rightarrow>
       contours_poly_of testCv (src_gray s') = [triA, rectB] \<and>
       boundRect_of testCv (src_gray s') = [boxA, boxB] \<and>
       Mat_roi (src s') boxA = Inr (rank s') \<and>
       at (drawContours testCv (Mat_zeros (rows (src s')) (cols (src s')))
             [triA, rectB] 0 (255, 0, 0, 0) 0) 10 10 = (0, 0, 0) \<and>
       at (src s') 10 10 = (2, 200, 100) \<and>
       at (rank s') 0 0 = (2, 200, 100)"
  by (simp add: model_defs test_defs Let_def masked_same)

section \<open>What the suit extraction shares with the rank extraction\<close>


text \<open>What the test of the suit loop reads: the region, the recorded corner and
  \<open>error\<close>. What the extraction leaves of the mask: the mask it was given, with the
  contour drawn on.\<close>

lemma suitReject_agree:
  assumes "src s2 = src s1" "error s2 = error s1"
    "rankBrXPosition s2 = rankBrXPosition s1" "rankBrYPosition s2 = rankBrYPosition s1"
  shows "suitReject area s2 r = suitReject area s1 r"
  using assms by (simp add: suitReject_def Let_def)




section \<open>The scenario of the two rectangles\<close>

text \<open>C10, as the specification has it: in a region of 200 by 280 whose contours are the
  rectangles A and B, \<open>extract\<close> succeeds. It fails: a tenth of the region's area is
  5600, and the areas of A and B are 1800 and 875.\<close>

theorem scenario_200x280_fails:
  "case Extractor_extract testCv (cardImage 980 800 1) fresh of
     Inl e \<Rightarrow> False
   | Inr (ok, s') \<Rightarrow>
       rows (src s') = 280 \<and> cols (src s') = 200 \<and>
       boundRect_of testCv (src_gray s') = [boxA, boxB] \<and>
       \<not> ok \<and> Mat_empty (rank s') \<and> Mat_empty (suit s')"
  by (simp add: model_defs test_defs Let_def masked_same)

text \<open>The two runs, for any library that reports the boxes of A and B, in either order.\<close>

lemma two_contours:
  assumes "boundRect_of cv g = [a, b]"
  shows "length (contours_poly_of cv g) = 2"
  using length_boundRect_of [of cv g] assms by simp

lemma scenario_fails:
  assumes region: "Mat_roi input \<lparr>rect_x = 0, rect_y = 0, rect_width = cdiv (cols input) 4,
                     rect_height = cdiv (2 * rows input) 7\<rparr> = Inr region"
    and B: "boundRect_of cv (blur cv (cvtColor cv region) (3, 3)) = [boxA, boxB] \<or>
            boundRect_of cv (blur cv (cvtColor cv region) (3, 3)) = [boxB, boxA]"
    and size: "rows region = 280" "cols region = 200"
    and new: "rankBrYPosition s < 0" "Mat_empty (rank s)"
  shows "\<exists>s'. Extractor_extract cv input s = Inr (False, s') \<and>
           rank s' = rank s \<and> suit s' = suit s"
proof -
  have ra: "rankReject 56000 (region :: Vec3b Mat) boxA = Inr True"
    and rb: "rankReject 56000 region boxB = Inr True"
    by (simp_all add: rankReject_def boxA_def boxB_def cdiv_def Rect_tl_def Rect_br_def
        int32_def)
  from B show ?thesis
  proof
    assume b: "boundRect_of cv (blur cv (cvtColor cv region) (3, 3)) = [boxA, boxB]"
    note l = two_contours [OF b]
    show ?thesis
      using region size new ra rb
      by (simp add: Extractor_extract_def Extractor_findSubImages_def Let_def b l int32_def
          rankLoop.simps)
  next
    assume b: "boundRect_of cv (blur cv (cvtColor cv region) (3, 3)) = [boxB, boxA]"
    note l = two_contours [OF b]
    show ?thesis
      using region size new ra rb
      by (simp add: Extractor_extract_def Extractor_findSubImages_def Let_def b l int32_def
          rankLoop.simps)
  qed
qed

lemma scenario_succeeds:
  assumes region: "Mat_roi input \<lparr>rect_x = 0, rect_y = 0, rect_width = cdiv (cols input) 4,
                     rect_height = cdiv (2 * rows input) 7\<rparr> = Inr region"
    and B: "boundRect_of cv (blur cv (cvtColor cv region) (3, 3)) = [boxA, boxB] \<or>
            boundRect_of cv (blur cv (cvtColor cv region) (3, 3)) = [boxB, boxA]"
    and size: "rows region = 140" "cols region = 100"
    and err: "0 \<le> error s" "error s < 50"
  shows "\<exists>s'. Extractor_extract cv input s = Inr (True, s') \<and>
           Mat_roi region boxA = Inr (rank s') \<and> Mat_roi region boxB = Inr (suit s')"
proof -
  have ra: "rankReject 14000 region boxA = Inr False"
    and rb: "rankReject 14000 region boxB = Inr True"
    using size
    by (simp_all add: rankReject_def boxA_def boxB_def cdiv_def Rect_tl_def Rect_br_def
        int32_def)
  have sa: "suitReject 14000 t boxA = Inr True"
    and sb: "suitReject 14000 t boxB = Inr False"
    if "src t = region" "error t = error s" "rankBrXPosition t = 40" "rankBrYPosition t = 70"
    for t
    using that size err
    by (simp_all add: suitReject_def boxA_def boxB_def cdiv_def Rect_tl_def Rect_br_def
        int32_def)
  have brA: "pt_x (Rect_br boxA) = 40" "pt_y (Rect_br boxA) = 70"
    by (simp_all add: boxA_def Rect_br_def int32_def)
  have roiA: "\<exists>sub. Mat_roi region boxA = Inr sub \<and> \<not> Mat_empty sub"
    and roiB: "\<exists>sub. Mat_roi region boxB = Inr sub \<and> \<not> Mat_empty sub"
    using size by (simp_all add: Mat_roi_def boxA_def boxB_def Mat_empty_def)
  then obtain subA subB where
    subA: "Mat_roi region boxA = Inr subA" "\<not> Mat_empty subA" and
    subB: "Mat_roi region boxB = Inr subB" "\<not> Mat_empty subB" by blast
  from B show ?thesis
  proof
    assume b: "boundRect_of cv (blur cv (cvtColor cv region) (3, 3)) = [boxA, boxB]"
    note l = two_contours [OF b]
    from l have ne: "contours_poly_of cv (blur cv (cvtColor cv region) (3, 3)) \<noteq> []" by auto
    show ?thesis
      using region size ra rb subA subB brA ne
      by (simp add: Extractor_extract_def Extractor_findSubImages_def Let_def b l
          rankFound_def suitFound_def createImg_eq drawForWindow_fields sa sb
          Extractor_showResult_def int32_def rankLoop.simps suitLoop.simps)
  next
    assume b: "boundRect_of cv (blur cv (cvtColor cv region) (3, 3)) = [boxB, boxA]"
    note l = two_contours [OF b]
    from l have ne: "contours_poly_of cv (blur cv (cvtColor cv region) (3, 3)) \<noteq> []" by auto
    show ?thesis
      using region size ra rb subA subB brA ne
      by (simp add: Extractor_extract_def Extractor_findSubImages_def Let_def b l
          rankFound_def suitFound_def createImg_eq drawForWindow_fields sa sb
          Extractor_showResult_def int32_def rankLoop.simps suitLoop.simps)
  qed
qed

text \<open>C10, amended. When the contours of the region are exactly A and B (in either
  order): in a region of 200 by 280 neither passes the rank filter, and an object that
  has recorded no rank and has an empty \<open>rank\<close> returns failure and produces no
  sub-image; in a region of 100 by 140 (a tenth of the area is 1400), with
  \<open>0 \<le> error < 50\<close>, \<open>extract\<close> returns success, \<open>rank\<close> is the region cut to the box of
  A and \<open>suit\<close> the region cut to the box of B.\<close>

theorem two_rectangles_scenario:
  assumes "Mat_roi input \<lparr>rect_x = 0, rect_y = 0, rect_width = cdiv (cols input) 4,
                     rect_height = cdiv (2 * rows input) 7\<rparr> = Inr region"
    and "boundRect_of cv (blur cv (cvtColor cv region) (3, 3)) = [boxA, boxB] \<or>
         boundRect_of cv (blur cv (cvtColor cv region) (3, 3)) = [boxB, boxA]"
  shows "(rows region = 280 \<and> cols region = 200 \<and>
          rankBrYPosition s < 0 \<and> Mat_empty (rank s) \<longrightarrow>
          (\<exists>s'. Extractor_extract cv input s = Inr (False, s') \<and>
                rank s' = rank s \<and> suit s' = suit s)) \<and>
         (rows region = 140 \<and> cols region = 100 \<and> 0 \<le> error s \<and> error s < 50 \<longrightarrow>
          (\<exists>s'. Extractor_extract cv input s = Inr (True, s') \<and>
                Mat_roi region boxA = Inr (rank s') \<and>
                Mat_roi region boxB = Inr (suit s')))"
  using scenario_fails [OF assms] scenario_succeeds [OF assms] by blast

text \<open>Both regions with the stand-in library and a new object: the card of 980 by 800
  has the region of 280 rows and 200 columns, the card of 490 by 400 the region of 140
  rows and 100 columns.\<close>

theorem two_rectangles_scenario_witness:
  "(\<exists>s'. Extractor_extract testCv (cardImage 980 800 1) fresh = Inr (False, s') \<and>
      rank s' = rank fresh \<and> suit s' = suit fresh) \<and>
   (\<exists>s'. Extractor_extract testCv (cardImage 490 400 1) fresh = Inr (True, s') \<and>
      Mat_roi (cardImage 140 100 1) boxA = Inr (rank s') \<and>
      Mat_roi (cardImage 140 100 1) boxB = Inr (suit s'))"
proof -
  have r1: "Mat_roi (cardImage 980 800 1)
      \<lparr>rect_x = 0, rect_y = 0, rect_width = cdiv (cols (cardImage 980 800 1)) 4,
        rect_height = cdiv (2 * rows (cardImage 980 800 1)) 7\<rparr> = Inr (cardImage 280 200 1)"
    and r2: "Mat_roi (cardImage 490 400 1)
      \<lparr>rect_x = 0, rect_y = 0, rect_width = cdiv (cols (cardImage 490 400 1)) 4,
        rect_height = cdiv (2 * rows (cardImage 490 400 1)) 7\<rparr> = Inr (cardImage 140 100 1)"
    by (simp_all add: Mat_roi_def cardImage_def cdiv_def)
  have b1: "boundRect_of testCv (blur testCv (cvtColor testCv (cardImage 280 200 1)) (3, 3)) =
      [boxA, boxB]"
    and b2: "boundRect_of testCv (blur testCv (cvtColor testCv (cardImage 140 100 1)) (3, 3)) =
      [boxA, boxB]"
    by (simp_all add: model_defs test_defs Let_def)
  have f: "rows (cardImage 280 200 1) = 280 \<and> cols (cardImage 280 200 1) = 200 \<and>
      rankBrYPosition fresh < 0 \<and> Mat_empty (rank fresh)"
    by (simp add: cardImage_def fresh_def new_Extractor_def Mat_empty_def Mat_default_def)
  have g: "rows (cardImage 140 100 1) = 140 \<and> cols (cardImage 140 100 1) = 100 \<and>
      0 \<le> error fresh \<and> error fresh < 50"
    by (simp add: cardImage_def fresh_def new_Extractor_def)
  from two_rectangles_scenario [OF r1 disjI1 [OF b1], of fresh, THEN conjunct1] f
    two_rectangles_scenario [OF r2 disjI1 [OF b2], of fresh, THEN conjunct2] g
  show ?thesis by blast
qed

section \<open>The same call twice\<close>

text \<open>Running a loop again on the state it left: the same contour is selected and the
  same box cut out, or none is and the fields are the ones left before.\<close>

lemma rankLoop_again:
  assumes "rankLoop cv polys rects area i st = Inr st1"
    and "src t = src (fst st)"
    and "rank t = rank (fst st1)"
    and "rankBrXPosition t = rankBrXPosition (fst st1)"
    and "rankBrYPosition t = rankBrYPosition (fst st1)"
  shows "\<exists>st2. rankLoop cv polys rects area i (t, m') = Inr st2 \<and>
           rank (fst st2) = rank (fst st1) \<and>
           rankBrXPosition (fst st2) = rankBrXPosition (fst st1) \<and>
           rankBrYPosition (fst st2) = rankBrYPosition (fst st1)"
  using assms
proof (induction cv polys rects area i st rule: rankLoop.induct)
  case (1 cv polys rects area i st)
  note u = rankLoop.simps [of cv polys rects area i st]
    rankLoop.simps [of cv polys rects area i "(t, m')"]
  show ?case
  proof (cases "i < length polys")
    case False
    with "1.prems" show ?thesis by (simp add: u)
  next
    case True
    show ?thesis
    proof (cases "rankReject area (src (fst st)) (rects ! i)")
      case (Inl e)
      with True "1.prems"(1) show ?thesis by (simp add: u)
    next
      case (Inr b)
      show ?thesis
      proof (cases b)
        case True
        then have bT: "b = True" by (simp add: u)
        from \<open>i < length polys\<close> Inr bT "1.prems"(1)
        have next_: "rankLoop cv polys rects area (Suc i) st = Inr st1" by (simp add: u)
        from "1.IH" [OF \<open>i < length polys\<close> Inr bT next_ "1.prems"(2-5)]
        show ?thesis using \<open>i < length polys\<close> Inr bT "1.prems"(2) by (simp add: u)
      next
        case False
        with \<open>i < length polys\<close> Inr "1.prems"(1)
        have f: "rankFound cv polys rects i st = Inr st1" by (simp add: u)
        note r = rankFound_Inr(1,2,3) [OF f]
        show ?thesis
          using \<open>i < length polys\<close> Inr False "1.prems"(2) r
          by (simp add: u rankFound_def createImg_eq drawForWindow_fields)
      qed
    qed
  qed
qed

lemma suitLoop_again:
  assumes "suitLoop cv polys rects area i st = Inr st1"
    and "src t = src (fst st)" and "error t = error (fst st)"
    and "rankBrXPosition t = rankBrXPosition (fst st)"
    and "rankBrYPosition t = rankBrYPosition (fst st)"
    and "suit t = suit (fst st1)"
  shows "\<exists>st2. suitLoop cv polys rects area i (t, m') = Inr st2 \<and>
           suit (fst st2) = suit (fst st1)"
  using assms
proof (induction cv polys rects area i st rule: suitLoop.induct)
  case (1 cv polys rects area i st)
  note u = suitLoop.simps [of cv polys rects area i st]
    suitLoop.simps [of cv polys rects area i "(t, m')"]
  note rej = suitReject_agree [OF "1.prems"(2-5), of area "rects ! i"]
  show ?case
  proof (cases "i < length polys")
    case False
    with "1.prems" show ?thesis by (simp add: u)
  next
    case True
    show ?thesis
    proof (cases "suitReject area (fst st) (rects ! i)")
      case (Inl e)
      with True "1.prems"(1) show ?thesis by (simp add: u)
    next
      case (Inr b)
      show ?thesis
      proof (cases b)
        case True
        then have bT: "b = True" by (simp add: u)
        from \<open>i < length polys\<close> Inr bT "1.prems"(1)
        have next_: "suitLoop cv polys rects area (Suc i) st = Inr st1" by (simp add: u)
        from "1.IH" [OF \<open>i < length polys\<close> Inr bT next_ "1.prems"(2-6)]
        show ?thesis using \<open>i < length polys\<close> Inr bT rej by (simp add: u)
      next
        case False
        with \<open>i < length polys\<close> Inr "1.prems"(1)
        have f: "suitFound cv polys rects i st = Inr st1" by (simp add: u)
        note r = suitFound_Inr(1) [OF f]
        show ?thesis
          using \<open>i < length polys\<close> Inr False "1.prems"(2) r rej
          by (simp add: u suitFound_def createImg_eq drawForWindow_fields)
      qed
    qed
  qed
qed

lemma findSubImages_again:
  assumes "Extractor_findSubImages cv s = Inr s1"
  shows "\<exists>s2. Extractor_findSubImages cv s1 = Inr s2 \<and>
           rank s2 = rank s1 \<and> suit s2 = suit s1 \<and>
           rankBrXPosition s2 = rankBrXPosition s1 \<and>
           rankBrYPosition s2 = rankBrYPosition s1"
proof -
  let ?P = "contours_poly_of cv (src_gray s)"
  let ?B = "boundRect_of cv (src_gray s)"
  let ?A = "int32 (cols (src s) * rows (src s))"
  let ?D = "Mat_zeros (rows (canny_output cv (src_gray s))) (cols (canny_output cv (src_gray s)))"
  let ?M = "Mat_zeros (rows (src s)) (cols (src s))"
  from assms obtain st1 where
    r: "rankLoop cv ?P ?B ?A 0 (s\<lparr>drawing := ?D\<rparr>, ?M) = Inr st1"
    and a: "rankBrYPosition (fst st1) < 0 \<longrightarrow> s1 = fst st1"
    and b: "\<not> rankBrYPosition (fst st1) < 0 \<longrightarrow>
           (\<exists>st2. suitLoop cv ?P ?B ?A 0 st1 = Inr st2 \<and> s1 = fst st2)"
    by (rule findSubImages_Inr)
  note fr = findSubImages_frame [OF assms]
  have f1: "src (fst st1) = src s" "error (fst st1) = error s" "suit (fst st1) = suit s"
    using rankLoop_frame [OF r] by simp_all
  have same: "rank s1 = rank (fst st1) \<and> rankBrXPosition s1 = rankBrXPosition (fst st1) \<and>
      rankBrYPosition s1 = rankBrYPosition (fst st1)"
    using a b suitLoop_frame(4,5,6) [of cv _ _ _ 0 st1]
    by (cases "rankBrYPosition (fst st1) < 0") fastforce+
  from rankLoop_again [OF r, of "s1\<lparr>drawing := ?D\<rparr>" ?M] same fr(1)
  obtain st1' where
    r': "rankLoop cv ?P ?B ?A 0 (s1\<lparr>drawing := ?D\<rparr>, ?M) = Inr st1'"
    and p': "rank (fst st1') = rank (fst st1)"
      "rankBrXPosition (fst st1') = rankBrXPosition (fst st1)"
      "rankBrYPosition (fst st1') = rankBrYPosition (fst st1)"
    by auto
  have f1': "src (fst st1') = src s" "error (fst st1') = error s" "suit (fst st1') = suit s1"
    using rankLoop_frame [OF r'] fr by simp_all
  show ?thesis
  proof (cases "rankBrYPosition (fst st1) < 0")
    case True
    with r' p' f1' same fr show ?thesis
      by (simp add: Extractor_findSubImages_def Let_def)
  next
    case False
    with b obtain st2 where
      l: "suitLoop cv ?P ?B ?A 0 st1 = Inr st2" and s1: "s1 = fst st2" by blast
    from suitLoop_again [OF l, of "fst st1'" "snd st1'"] f1 f1' p' s1
    obtain st2' where
      l': "suitLoop cv ?P ?B ?A 0 st1' = Inr st2'" and q: "suit (fst st2') = suit s1"
      by auto
    note k = suitLoop_frame(4,5,6) [OF l']
    from False r' l' q k p' same fr show ?thesis
      by (simp add: Extractor_findSubImages_def Let_def Extractor_showResult_def)
  qed
qed

text \<open>A call that returned, repeated with the same input on the state it left, returns
  the same result and leaves the same sub-images and the same corner. (What a call
  returns does depend on the calls before it; repeating it changes nothing more.)\<close>

theorem extract_repeated:
  assumes "Extractor_extract cv input s = Inr (ok, s1)"
  shows "\<exists>s2. Extractor_extract cv input s1 = Inr (ok, s2) \<and>
           rank s2 = rank s1 \<and> suit s2 = suit s1 \<and>
           rankBrXPosition s2 = rankBrXPosition s1 \<and>
           rankBrYPosition s2 = rankBrYPosition s1"
proof -
  from assms obtain region where
    r: "Mat_roi input \<lparr>rect_x = 0, rect_y = 0, rect_width = cdiv (cols input) 4,
                     rect_height = cdiv (2 * rows input) 7\<rparr> = Inr region"
    and f: "Extractor_findSubImages cv
           (s\<lparr>src := region, src_gray := blur cv (cvtColor cv region) (3, 3)\<rparr>) = Inr s1"
    and o: "ok = (\<not> (Mat_empty (rank s1) \<or> Mat_empty (suit s1)))"
    by (rule extract_Inr)
  from findSubImages_frame(1,2) [OF f]
  have "s1\<lparr>src := region, src_gray := blur cv (cvtColor cv region) (3, 3)\<rparr> = s1" by simp
  with findSubImages_again [OF f] r o show ?thesis
    by (auto simp: Extractor_extract_def Let_def)
qed

text \<open>On the card with the rectangles A and B.\<close>

theorem extract_repeated_witness:
  "\<exists>s1 s2. Extractor_extract testCv (cardImage 490 400 1) fresh = Inr (True, s1) \<and>
     Extractor_extract testCv (cardImage 490 400 1) s1 = Inr (True, s2) \<and>
     rank s2 = rank s1 \<and> suit s2 = suit s1 \<and>
     rankBrXPosition s2 = rankBrXPosition s1 \<and> rankBrYPosition s2 = rankBrYPosition s1"
proof -
  have "\<exists>s'. Extractor_extract testCv (cardImage 490 400 1) fresh = Inr (True, s')"
    by (simp add: model_defs test_defs Let_def masked_same)
  then obtain s1 where e: "Extractor_extract testCv (cardImage 490 400 1) fresh = Inr (True, s1)" ..
  from extract_repeated [OF e] e show ?thesis by blast
qed

section \<open>A region with no contour\<close>

text \<open>For an image with no negative size, cutting the region raises no exception; and
  when the library finds no contour in the region, the class's own code raises none
  either: \<open>extract\<close> returns, \<open>rank\<close> and \<open>suit\<close> are as they were, and the result is
  failure unless both were filled before the call. Whether the library returns at all
  on an empty region is not decided by the code of the class.\<close>

theorem no_contour_returns:
  assumes "0 \<le> rows input" and "0 \<le> cols input"
  shows "\<exists>region. Mat_roi input \<lparr>rect_x = 0, rect_y = 0, rect_width = cdiv (cols input) 4,
                     rect_height = cdiv (2 * rows input) 7\<rparr> = Inr region \<and>
     (findContours cv (canny_output cv (blur cv (cvtColor cv region) (3, 3))) = [] \<longrightarrow>
      (\<exists>s'. Extractor_extract cv input s =
               Inr (\<not> (Mat_empty (rank s) \<or> Mat_empty (suit s)), s') \<and>
            rank s' = rank s \<and> suit s' = suit s))"
proof -
  have "0 \<le> cdiv (cols input) 4" "cdiv (cols input) 4 \<le> cols input"
    "0 \<le> cdiv (2 * rows input) 7" "cdiv (2 * rows input) 7 \<le> rows input"
    using assms by (auto simp: cdiv_def sgn_if)
  then obtain region where
    r: "Mat_roi input \<lparr>rect_x = 0, rect_y = 0, rect_width = cdiv (cols input) 4,
                     rect_height = cdiv (2 * rows input) 7\<rparr> = Inr region"
    by (simp add: Mat_roi_def)
  have "\<exists>s'. Extractor_extract cv input s =
               Inr (\<not> (Mat_empty (rank s) \<or> Mat_empty (suit s)), s') \<and>
            rank s' = rank s \<and> suit s' = suit s"
    if "findContours cv (canny_output cv (blur cv (cvtColor cv region) (3, 3))) = []"
    using r that
    by (simp add: Extractor_extract_def Extractor_findSubImages_def Let_def
        contours_poly_of_def boundRect_of_def Extractor_showResult_def
        rankLoop.simps suitLoop.simps)
  with r show ?thesis by blast
qed

text \<open>A card of 3 by 3 has the empty region; the stand-in library finds no contour in it,
  and a new object returns failure.\<close>

theorem no_contour_returns_witness:
  "0 \<le> rows (cardImage 3 3 0) \<and> 0 \<le> cols (cardImage 3 3 0) \<and>
   (\<exists>region. Mat_roi (cardImage 3 3 0) \<lparr>rect_x = 0, rect_y = 0,
                 rect_width = cdiv (cols (cardImage 3 3 0)) 4,
                 rect_height = cdiv (2 * rows (cardImage 3 3 0)) 7\<rparr> = Inr region \<and>
      Mat_empty region \<and>
      findContours testCv (canny_output testCv (blur testCv (cvtColor testCv region) (3, 3))) = [] \<and>
      (\<exists>s'. Extractor_extract testCv (cardImage 3 3 0) fresh = Inr (False, s') \<and>
            rank s' = rank fresh \<and> suit s' = suit fresh))"
proof -
  have d: "0 \<le> rows (cardImage 3 3 0)" "0 \<le> cols (cardImage 3 3 0)" by (simp_all add: cardImage_def)
  from no_contour_returns [OF d, of testCv fresh] obtain region where
    r: "Mat_roi (cardImage 3 3 0) \<lparr>rect_x = 0, rect_y = 0,
                 rect_width = cdiv (cols (cardImage 3 3 0)) 4,
                 rect_height = cdiv (2 * rows (cardImage 3 3 0)) 7\<rparr> = Inr region"
    and i: "findContours testCv (canny_output testCv (blur testCv (cvtColor testCv region) (3, 3))) = [] \<longrightarrow>
      (\<exists>s'. Extractor_extract testCv (cardImage 3 3 0) fresh =
               Inr (\<not> (Mat_empty (rank fresh) \<or> Mat_empty (suit fresh)), s') \<and>
            rank s' = rank fresh \<and> suit s' = suit fresh)"
    by blast
  from r have reg: "region = \<lparr>rows = 0, cols = 0, at = (\<lambda>i j. (0, 200, 100))\<rparr>"
    by (simp add: Mat_roi_def cardImage_def cdiv_def)
  then have e: "Mat_empty region" by (simp add: Mat_empty_def)
  from reg have c: "findContours testCv (canny_output testCv (blur testCv (cvtColor testCv region) (3, 3))) = []"
    by (simp add: testCv_def canny_output_def scene_def)
  have "Mat_empty (rank fresh)"
    by (simp add: fresh_def new_Extractor_def Mat_default_def Mat_empty_def)
  with i c d r e show ?thesis by auto
qed

end
